theory Spec2Isabelle
  imports Complex_Main "HOL-Library.AList"
begin

section \<open>JavaScript values used by the router\<close>

text \<open>
  The agency router is TypeScript. Its numbers are modelled as rationals (the scores are sums
  of the constants 0.85 and 0.15, the times are clock readings), its strings as \<open>string\<close>
  over ASCII text: only the letters A-Z have a lower case, the white space of \<open>\s\<close> is
  the six ASCII white-space characters and \<open>\w\<close> is \<open>[A-Za-z0-9_]\<close>.
  A JavaScript \<open>Map\<close> keeps its keys in insertion order and \<open>set\<close> overwrites
  in place: it is an association list updated by \<open>AList.update\<close>.
\<close>

type_synonym ('k, 'v) js_map = "('k \<times> 'v) list"

definition Map_set :: "'k \<Rightarrow> 'v \<Rightarrow> ('k, 'v) js_map \<Rightarrow> ('k, 'v) js_map" where
  "Map_set k v m = AList.update k v m"

definition Map_get :: "('k, 'v) js_map \<Rightarrow> 'k \<Rightarrow> 'v option" where
  "Map_get m k = map_of m k"

definition Map_values :: "('k, 'v) js_map \<Rightarrow> 'v list" where
  "Map_values m = map snd m"

definition toLowerChar :: "char \<Rightarrow> char" where
  "toLowerChar c =
     (case map_of (zip ''ABCDEFGHIJKLMNOPQRSTUVWXYZ'' ''abcdefghijklmnopqrstuvwxyz'') c of
        Some l \<Rightarrow> l
      | None \<Rightarrow> c)"

definition toLowerCase :: "string \<Rightarrow> string" where
  "toLowerCase s = map toLowerChar s"

definition isSpace :: "char \<Rightarrow> bool" where
  "isSpace c = (c \<in> set [CHR '' '', CHR 0x09, CHR 0x0A, CHR 0x0B, CHR 0x0C, CHR 0x0D])"

definition isWordChar :: "char \<Rightarrow> bool" where
  "isWordChar c =
     (c \<in> set ''abcdefghijklmnopqrstuvwxyzABCDEFGHIJKLMNOPQRSTUVWXYZ0123456789_'')"

text \<open>
  \<open>s.startsWith(k)\<close>, and \<open>s.includes(k)\<close> under the name \<open>str_includes\<close>:
  \<open>k\<close> occurs in \<open>s\<close> as a substring.
\<close>

fun startsWith :: "string \<Rightarrow> string \<Rightarrow> bool" where
  "startsWith s [] = True"
| "startsWith [] (k # ks) = False"
| "startsWith (c # cs) (k # ks) = (c = k \<and> startsWith cs ks)"

fun str_includes :: "string \<Rightarrow> string \<Rightarrow> bool" where
  "str_includes [] k = (k = [])"
| "str_includes (c # cs) k = (startsWith (c # cs) k \<or> str_includes cs k)"

text \<open>
  \<open>s.split(re)\<close> for a regular expression \<open>re\<close> that matches the non-empty runs of the
  characters satisfying \<open>P\<close> (\<open>/\s+/\<close>, \<open>/[.!?]+/\<close>): the pieces between the runs,
  an empty piece before a leading run and after a trailing one, and \<open>[""]\<close> for the empty string.
\<close>

function splitRuns :: "(char \<Rightarrow> bool) \<Rightarrow> string \<Rightarrow> string list" where
  "splitRuns P [] = [[]]"
| "splitRuns P (c # cs) =
     (if P c then [] # splitRuns P (dropWhile P cs)
      else (case splitRuns P cs of
              [] \<Rightarrow> [[c]]
            | w # ws \<Rightarrow> (c # w) # ws))"
  by pat_completeness auto
termination
  by (relation "measure (\<lambda>(P, s). length s)")
     (auto simp: length_dropWhile_le less_Suc_eq_le)

text \<open>\<open>xs.join(sep)\<close>.\<close>

fun join :: "string \<Rightarrow> string list \<Rightarrow> string" where
  "join sep [] = []"
| "join sep [x] = x"
| "join sep (x # y # ys) = x @ sep @ join sep (y # ys)"

text \<open>\<open>Math.round\<close> rounds to the nearest integer, a half towards plus infinity.\<close>

definition Math_round :: "rat \<Rightarrow> rat" where
  "Math_round x = of_int \<lfloor>x + 1 / 2\<rfloor>"

definition round2 :: "rat \<Rightarrow> rat" where
  "round2 x = Math_round (x * 100) / 100"

section \<open>keyword-matcher.ts\<close>

record KeywordMatch =
  km_keyword :: string
  km_agent :: string
  km_confidence :: rat
  km_domain :: string

record AgentScore =
  as_agent :: string
  as_score :: rat
  as_matches :: "KeywordMatch list"
  as_primaryDomain :: string

definition KEYWORD_SETS :: "(string \<times> (string \<times> string list) list) list" where
  "KEYWORD_SETS =
    [(''codegen'',
      [(''implementation'',
        [''implement'', ''build'', ''code'', ''develop'', ''create'', ''write'', ''function'',
         ''method'', ''class'', ''component'', ''api'', ''endpoint'', ''route'', ''debug'',
         ''fix'', ''error'', ''bug'', ''optimize'', ''refactor'', ''performance'', ''test'',
         ''unit test'', ''integration test'', ''deploy'', ''release'', ''setup'', ''configure'',
         ''installation'', ''library'', ''framework'', ''javascript'', ''typescript'',
         ''python'', ''node.js'', ''react'', ''vue'', ''angular'', ''rust'', ''go'', ''java'',
         ''database'', ''sql'', ''query''])]),
     (''planning'',
      [(''strategy'',
        [''plan'', ''strategy'', ''roadmap'', ''timeline'', ''project'', ''workflow'',
         ''process'', ''architecture'', ''design'', ''design document'', ''proposal'',
         ''requirement'', ''scope'', ''milestone'', ''deadline'', ''goal'', ''objective'',
         ''task'', ''deliverable'', ''stakeholder'', ''team'', ''resource'', ''budget'',
         ''cost'', ''estimate'', ''schedule'', ''phase'', ''sprint'', ''epic'', ''user story'',
         ''acceptance criteria'', ''risk'', ''constraint'', ''dependency'', ''communication'',
         ''review'', ''approval'', ''governance''])]),
     (''security'',
      [(''security'',
        [''security'', ''vulnerability'', ''exploit'', ''attack'', ''threat'', ''risk'',
         ''penetration test'', ''audit'', ''compliance'', ''encryption'', ''authentication'',
         ''authorization'', ''permission'', ''access control'', ''sensitive data'', ''privacy'',
         ''breach'', ''secure'', ''secure coding'', ''owasp'', ''cwe'', ''cve'', ''malware'',
         ''phishing'', ''injection'', ''xss'', ''csrf'', ''token'', ''jwt'', ''api key'',
         ''credential'', ''secret'', ''tls'', ''ssl'', ''certificate'', ''firewall'', ''ddos'',
         ''intrusion'', ''forensic'', ''incident response'', ''hardening'', ''defense''])]),
     (''infrastructure'',
      [(''operations'',
        [''infrastructure'', ''deploy'', ''cloud'', ''aws'', ''azure'', ''gcp'', ''cloudflare'',
         ''kubernetes'', ''docker'', ''container'', ''ci/cd'', ''github actions'', ''jenkins'',
         ''gitlab'', ''devops'', ''terraform'', ''infrastructure as code'', ''monitoring'',
         ''logging'', ''observability'', ''metrics'', ''alerting'', ''uptime'', ''sla'',
         ''disaster recovery'', ''backup'', ''load balancer'', ''cdn'', ''database'', ''cache'',
         ''queue'', ''message broker'', ''api gateway'', ''reverse proxy'', ''ssl'',
         ''certificate'', ''dns'', ''domain'', ''network'', ''scaling'', ''auto-scaling''])])]"

definition DEFAULT_CONFIDENCE :: rat where
  "DEFAULT_CONFIDENCE = 85 / 100"

definition KEYWORD_WEIGHT :: rat where
  "KEYWORD_WEIGHT = 1"

definition COMPOUND_KEYWORD_BOOST :: rat where
  "COMPOUND_KEYWORD_BOOST = 15 / 100"

definition tokenize :: "string \<Rightarrow> string list" where
  "tokenize text =
     filter (\<lambda>word. length word > 2)
       (map (\<lambda>word. filter isWordChar word) (splitRuns isSpace text))"

definition compoundPatterns :: "string list" where
  "compoundPatterns =
     [''design document'', ''unit test'', ''integration test'', ''user story'',
      ''acceptance criteria'', ''api gateway'', ''reverse proxy'', ''load balancer'',
      ''message broker'', ''disaster recovery'', ''auto scaling'', ''infrastructure as code'',
      ''ci/cd'', ''github actions'', ''penetration test'', ''access control'',
      ''sensitive data'', ''secure coding'', ''api key'', ''jwt token'', ''ssl certificate'',
      ''node.js'', ''sql query'']"

definition extractCompoundKeywords :: "string \<Rightarrow> string list" where
  "extractCompoundKeywords text = filter (\<lambda>pattern. str_includes text pattern) compoundPatterns"

text \<open>
  The body of \<open>for (const keyword of keywords)\<close>: the state is the list of matches, the
  score of the current domain and the total score of the agent.
\<close>

definition scoreKeyword ::
  "string list \<Rightarrow> string \<Rightarrow> string \<Rightarrow> string \<Rightarrow> string \<Rightarrow>
   KeywordMatch list \<times> rat \<times> rat \<Rightarrow> KeywordMatch list \<times> rat \<times> rat" where
  "scoreKeyword allKeywords normalizedText agent domain keyword st =
     (case st of (matches, domainScore, totalScore) \<Rightarrow>
        (let st1 =
               (if keyword \<in> set allKeywords
                then (matches @ [\<lparr>km_keyword = keyword, km_agent = agent,
                                   km_confidence = DEFAULT_CONFIDENCE, km_domain = domain\<rparr>],
                      domainScore + DEFAULT_CONFIDENCE, totalScore + DEFAULT_CONFIDENCE)
                else (matches, domainScore, totalScore))
         in (case st1 of (matches1, domainScore1, totalScore1) \<Rightarrow>
              (if str_includes normalizedText keyword
               then (matches1, domainScore1 + KEYWORD_WEIGHT * COMPOUND_KEYWORD_BOOST,
                     totalScore1 + KEYWORD_WEIGHT * COMPOUND_KEYWORD_BOOST)
               else st1))))"

text \<open>
  The body of \<open>for (const [domain, keywords] of Object.entries(domains))\<close>: the state is
  the matches, the object \<open>domainScores\<close> and the total score.
\<close>

definition scoreDomain ::
  "string list \<Rightarrow> string \<Rightarrow> string \<Rightarrow> string \<times> string list \<Rightarrow>
   KeywordMatch list \<times> (string, rat) js_map \<times> rat \<Rightarrow>
   KeywordMatch list \<times> (string, rat) js_map \<times> rat" where
  "scoreDomain allKeywords normalizedText agent dk st =
     (case (dk, st) of ((domain, keywords), (matches, domainScores, totalScore)) \<Rightarrow>
        (case fold (scoreKeyword allKeywords normalizedText agent domain) keywords
                (matches, 0, totalScore) of
           (matches', domainScore', totalScore') \<Rightarrow>
             (matches', Map_set domain domainScore' domainScores, totalScore')))"

text \<open>
  \<open>xs.toSorted((a, b) => score(b) - score(a))\<close>: a stable sort, the highest score first.
\<close>

definition toSortedDesc :: "('a \<Rightarrow> rat) \<Rightarrow> 'a list \<Rightarrow> 'a list" where
  "toSortedDesc f xs = sort_key (\<lambda>x. - f x) xs"

definition primaryDomainOf :: "(string, rat) js_map \<Rightarrow> string" where
  "primaryDomainOf domainScores =
     (case toSortedDesc snd domainScores of
        [] \<Rightarrow> ''unknown''
      | (d, _) # _ \<Rightarrow> (if d = [] then ''unknown'' else d))"

definition scoreAgent ::
  "string list \<Rightarrow> string \<Rightarrow> string \<Rightarrow> (string \<times> string list) list \<Rightarrow> AgentScore" where
  "scoreAgent allKeywords normalizedText agent domains =
     (case fold (scoreDomain allKeywords normalizedText agent) domains ([], [], 0) of
        (matches, domainScores, totalScore) \<Rightarrow>
          \<lparr>as_agent = agent,
           as_score = min 100 ((totalScore / 10) * 10),
           as_matches = matches,
           as_primaryDomain = primaryDomainOf domainScores\<rparr>)"

definition scoreMessage :: "string \<Rightarrow> AgentScore list" where
  "scoreMessage text =
     (let normalizedText = toLowerCase text;
          words = tokenize normalizedText;
          compounds = extractCompoundKeywords normalizedText;
          allKeywords = words @ compounds;
          agentScores =
            fold (\<lambda>(agent, domains) m.
                    Map_set agent (scoreAgent allKeywords normalizedText agent domains) m)
                 KEYWORD_SETS []
      in toSortedDesc as_score (Map_values agentScores))"

definition getConfidenceScore :: "AgentScore list \<Rightarrow> rat" where
  "getConfidenceScore scores =
     (case scores of
        [] \<Rightarrow> 0
      | s0 # rest \<Rightarrow>
          (let topScore = as_score s0;
               secondScore = (case rest of [] \<Rightarrow> 0 | s # _ \<Rightarrow> as_score s)
           in if topScore \<ge> 50 \<and> topScore - secondScore \<ge> 20
              then min (95 / 100) (7 / 10 + (topScore / 100) * (25 / 100))
              else if topScore \<ge> 30
              then 6 / 10 + (topScore / 100) * (35 / 100)
              else min (5 / 10) (topScore / 100)))"

section \<open>complexity-classifier.ts\<close>

datatype level = Simple | Moderate | Complex

fun level_str :: "level \<Rightarrow> string" where
  "level_str Simple = ''simple''"
| "level_str Moderate = ''moderate''"
| "level_str Complex = ''complex''"

record ComplexityAssessment =
  ca_level :: level
  ca_score :: nat
  ca_factors :: "string list"
  ca_estimatedTokens :: nat
  ca_suggestedAgent :: string

definition complex_keywords :: "string list" where
  "complex_keywords =
     [''design'', ''architect'', ''optimize'', ''refactor'', ''migrate'', ''distributed'',
      ''performance'', ''scalability'', ''security'', ''compliance'', ''multi-step'',
      ''strategic'', ''comprehensive'', ''advanced'', ''custom'']"

definition moderate_keywords :: "string list" where
  "moderate_keywords =
     [''implement'', ''integrate'', ''configure'', ''debug'', ''troubleshoot'', ''modify'',
      ''update'', ''improve'', ''enhance'', ''add'', ''change'', ''convert'', ''analyze'',
      ''review'']"

definition AGENT_COMPLEXITY_MAPPING :: "(string \<times> level) list" where
  "AGENT_COMPLEXITY_MAPPING =
     [(''codegen'', Moderate), (''planning'', Complex), (''security'', Complex),
      (''infrastructure'', Complex)]"

definition topicKeywords :: "(string \<times> string list) list" where
  "topicKeywords =
     [(''frontend'', [''react'', ''vue'', ''angular'', ''component'', ''ui'', ''ux'']),
      (''backend'', [''node'', ''python'', ''api'', ''database'', ''server'']),
      (''devops'', [''kubernetes'', ''docker'', ''ci/cd'', ''deploy'', ''cloud'']),
      (''security'', [''security'', ''vulnerability'', ''encryption'', ''auth'']),
      (''database'', [''sql'', ''mongodb'', ''postgres'', ''query'', ''schema''])]"

definition detectTopics :: "string \<Rightarrow> string list" where
  "detectTopics text =
     map fst (filter (\<lambda>(topic, keywords). list_ex (\<lambda>k. str_includes text k) keywords)
                     topicKeywords)"

fun suggestAgent :: "level \<Rightarrow> string" where
  "suggestAgent Simple = ''codegen''"
| "suggestAgent Moderate = ''codegen''"
| "suggestAgent Complex = ''planning''"

text \<open>The alternatives of the regular expressions that \<open>assessComplexity\<close> tests.\<close>

definition codeSyntax :: "string list" where
  "codeSyntax = [''```'', ''<'', ''>'', ''{'', ''}'', ''['', '']'', ''=>'', '';'']"

definition constraintWords :: "string list" where
  "constraintWords =
     [''must'', ''should'', ''cannot'', [CHR ''d'', CHR ''o'', CHR ''n'', CHR 0x27, CHR ''t''],
      ''constraint'', ''requirement'']"

text \<open>A factor is pushed, and the score raised, when the condition holds.\<close>

definition addFactor :: "bool \<Rightarrow> nat \<Rightarrow> string \<Rightarrow> nat \<times> string list \<Rightarrow> nat \<times> string list" where
  "addFactor cond pts factor st =
     (case st of (complexityScore, factors) \<Rightarrow>
        (if cond then (complexityScore + pts, factors @ [factor]) else st))"

definition assessComplexity :: "string \<Rightarrow> string option \<Rightarrow> ComplexityAssessment" where
  "assessComplexity text agent =
     (let normalizedText = toLowerCase text;
          sentences = filter (\<lambda>s. list_ex (\<lambda>c. \<not> isSpace c) s)
                             (splitRuns (\<lambda>c. c \<in> set ''.!?'') text);
          st0 = (0, []);
          st1 = (if length text > 1500
                 then addFactor True 2 ''Long message (>1500 chars)'' st0
                 else addFactor (length text > 500) 1 ''Medium message (500-1500 chars)'' st0);
          st2 = (if length sentences > 10
                 then addFactor True 2 ''Multiple requirements (>10 sentences)'' st1
                 else addFactor (length sentences > 5) 1
                        ''Several requirements (5-10 sentences)'' st1);
          complexMatches = filter (\<lambda>k. str_includes normalizedText k) complex_keywords;
          st3 = (fst st2 + length complexMatches * 2, snd st2);
          st4 = addFactor (length complexMatches > 0) 0
                  (''Complex indicators: '' @ join '', '' (take 3 complexMatches)) st3;
          moderateMatches = filter (\<lambda>k. str_includes normalizedText k) moderate_keywords;
          st5 = (fst st4 + length moderateMatches * 1, snd st4);
          st6 = addFactor (length moderateMatches > 0) 0
                  (''Moderate indicators: '' @ join '', '' (take 3 moderateMatches)) st5;
          hasCodeBlocks = list_ex (\<lambda>p. str_includes text p) codeSyntax;
          st7 = addFactor hasCodeBlocks 1 ''Contains code or technical syntax'' st6;
          topics = detectTopics normalizedText;
          st8 = addFactor (length topics > 2) 1
                  (''Multiple topics: '' @ join '', '' topics) st7;
          hasConstraints = list_ex (\<lambda>p. str_includes normalizedText p) constraintWords;
          st9 = addFactor hasConstraints 1 ''Contains explicit constraints'' st8;
          complexityScore = fst st9;
          level0 = (if complexityScore \<ge> 6 then Complex
                    else if complexityScore \<ge> 3 then Moderate
                    else Simple);
          adjusted =
            (case agent of
               None \<Rightarrow> None
             | Some a \<Rightarrow>
                 (if a \<noteq> [] \<and> map_of AGENT_COMPLEXITY_MAPPING a = Some Complex \<and>
                     level0 = Simple
                  then Some a else None));
          level = (case adjusted of None \<Rightarrow> level0 | Some a \<Rightarrow> Moderate);
          factors =
            (case adjusted of
               None \<Rightarrow> snd st9
             | Some a \<Rightarrow> snd st9 @ [''Adjusted for '' @ a @ '' agent complexity baseline''])
      in \<lparr>ca_level = level,
          ca_score = complexityScore,
          ca_factors = factors,
          ca_estimatedTokens = (length text + 3) div 4,
          ca_suggestedAgent = suggestAgent level\<rparr>)"

section \<open>router-engine.ts\<close>

record Agent =
  ag_id :: string
  ag_name :: string
  ag_description :: string
  ag_keywords :: "string list"
  ag_domains :: "string list"
  ag_costPerToken :: "rat option"
  ag_maxTokens :: "nat option"
  ag_enabled :: bool

record SkillFile =
  sf_id :: string
  sf_name :: string
  sf_agent :: string
  sf_description :: string
  sf_keywords :: "string list"

record RoutingDecision =
  rd_agent :: string
  rd_confidence :: rat
  rd_reason :: string
  rd_skillFilesUsed :: "string list"
  rd_estimatedCost :: rat
  rd_complexity :: string
  rd_latency :: rat
  rd_timestamp :: string
  rd_matchedKeywords :: "string list"

definition STATIC_AGENTS :: "Agent list" where
  "STATIC_AGENTS =
     [\<lparr>ag_id = ''codegen'', ag_name = ''Code Generation Agent'',
       ag_description = ''Expert in code implementation, debugging, and testing'',
       ag_keywords = [''implement'', ''build'', ''code'', ''debug'', ''test'', ''function'',
                      ''api'', ''optimize'', ''refactor''],
       ag_domains = [''javascript'', ''typescript'', ''python'', ''rust'', ''go''],
       ag_costPerToken = Some (3 / 1000), ag_maxTokens = Some 4000, ag_enabled = True\<rparr>,
      \<lparr>ag_id = ''planning'', ag_name = ''Planning & Strategy Agent'',
       ag_description = ''Expert in project planning, roadmapping, and strategic thinking'',
       ag_keywords = [''plan'', ''strategy'', ''roadmap'', ''design'', ''architecture'',
                      ''timeline'', ''proposal''],
       ag_domains = [''project management'', ''architecture''],
       ag_costPerToken = Some (2 / 1000), ag_maxTokens = Some 8000, ag_enabled = True\<rparr>,
      \<lparr>ag_id = ''security'', ag_name = ''Security & Compliance Agent'',
       ag_description = ''Expert in security analysis, threat modeling, and compliance'',
       ag_keywords = [''security'', ''vulnerability'', ''exploit'', ''threat'', ''penetration'',
                      ''encryption'', ''compliance''],
       ag_domains = [''security'', ''compliance''],
       ag_costPerToken = Some (4 / 1000), ag_maxTokens = Some 6000, ag_enabled = True\<rparr>,
      \<lparr>ag_id = ''infrastructure'', ag_name = ''Infrastructure & DevOps Agent'',
       ag_description = ''Expert in infrastructure, deployment, and operations'',
       ag_keywords = [''infrastructure'', ''deploy'', ''cloud'', ''kubernetes'', ''docker'',
                      ''ci/cd'', ''monitoring''],
       ag_domains = [''cloud'', ''devops'', ''kubernetes''],
       ag_costPerToken = Some (3 / 1000), ag_maxTokens = Some 5000, ag_enabled = True\<rparr>]"

definition STATIC_SKILL_FILES :: "SkillFile list" where
  "STATIC_SKILL_FILES =
     [\<lparr>sf_id = ''task-complexity-assessment'', sf_name = ''Task Complexity Assessment'',
       sf_agent = ''planning'',
       sf_description = ''Assess complexity and determine routing path'',
       sf_keywords = [''complexity'', ''assessment'', ''routing'']\<rparr>,
      \<lparr>sf_id = ''agent-codegen'', sf_name = ''Code Generation Strategies'',
       sf_agent = ''codegen'', sf_description = ''Strategies for code implementation'',
       sf_keywords = [''code'', ''generate'', ''implement'']\<rparr>,
      \<lparr>sf_id = ''keyword-matching-strategy'', sf_name = ''Keyword Matching Strategy'',
       sf_agent = ''planning'', sf_description = ''Strategy for keyword-based routing'',
       sf_keywords = [''matching'', ''strategy'', ''routing'']\<rparr>,
      \<lparr>sf_id = ''security-threat-modeling'', sf_name = ''Security Threat Modeling'',
       sf_agent = ''security'', sf_description = ''Threat modeling and risk assessment'',
       sf_keywords = [''threat'', ''security'', ''risk'']\<rparr>,
      \<lparr>sf_id = ''infrastructure-deployment'', sf_name = ''Infrastructure Deployment'',
       sf_agent = ''infrastructure'', sf_description = ''Deployment strategies and patterns'',
       sf_keywords = [''deploy'', ''infrastructure'', ''cloud'']\<rparr>]"

definition FALLBACK_AGENT :: string where
  "FALLBACK_AGENT = ''planning''"

text \<open>
  The D1 database, as far as the worker uses it. A query of the engine throws (\<open>None\<close>)
  or returns rows; the JSON columns of a row parse or make \<open>JSON.parse\<close> throw
  (\<open>None\<close>). The table \<open>routing_audit_log\<close> holds the entries that the audit logger of
  \<open>cache.ts\<close> inserts (\<open>AuditLogEntry\<close> is its interface), and an insert may throw.
\<close>

record AgentRow =
  ar_id :: string
  ar_name :: string
  ar_description :: string
  ar_keywords :: "string list option"
  ar_domains :: "string list option"
  ar_cost_per_token :: "rat option"
  ar_max_tokens :: "nat option"

record SkillRow =
  sr_id :: string
  sr_name :: string
  sr_agent :: string
  sr_description :: string
  sr_keywords :: "string list option"

record AuditLogEntry =
  al_id :: string
  al_timestamp :: int
  al_messageHash :: string
  al_message :: string
  al_agent :: string
  al_confidence :: rat
  al_complexity :: string
  al_estimatedCost :: rat
  al_cached :: bool
  al_latency :: rat
  al_userId :: "string option"
  al_metadata :: "(string \<times> string) list option"

record AuditTable =
  at_rows :: "AuditLogEntry list"
  at_throws :: bool

record D1Database =
  d1_agents :: "AgentRow list option"
  d1_skill_files :: "SkillRow list option"
  d1_audit :: AuditTable

record RouterEngine =
  db :: "D1Database option"
  agents :: "(string, Agent) js_map"
  skillFiles :: "(string, SkillFile) js_map"

definition RouterEngine_new ::
  "D1Database option \<Rightarrow> Agent list \<Rightarrow> SkillFile list \<Rightarrow> RouterEngine" where
  "RouterEngine_new d ags sks =
     \<lparr>db = d,
      agents = fold (\<lambda>agent m. Map_set (ag_id agent) agent m) ags [],
      skillFiles = fold (\<lambda>skill m. Map_set (sf_id skill) skill m) sks []\<rparr>"

text \<open>The loops of the loaders stop at the first row that throws; the rows before it stay.\<close>

fun loadAgentRows :: "AgentRow list \<Rightarrow> (string, Agent) js_map \<Rightarrow> (string, Agent) js_map" where
  "loadAgentRows [] m = m"
| "loadAgentRows (r # rs) m =
     (case ar_keywords r of
        None \<Rightarrow> m
      | Some ks \<Rightarrow>
          (case ar_domains r of
             None \<Rightarrow> m
           | Some ds \<Rightarrow>
               loadAgentRows rs
                 (Map_set (ar_id r)
                    \<lparr>ag_id = ar_id r, ag_name = ar_name r, ag_description = ar_description r,
                     ag_keywords = ks, ag_domains = ds,
                     ag_costPerToken = ar_cost_per_token r, ag_maxTokens = ar_max_tokens r,
                     ag_enabled = True\<rparr> m)))"

definition loadAgentsFromDB :: "RouterEngine \<Rightarrow> RouterEngine" where
  "loadAgentsFromDB e =
     (case db e of
        None \<Rightarrow> e
      | Some d \<Rightarrow>
          (case d1_agents d of
             None \<Rightarrow> e
           | Some rows \<Rightarrow> e\<lparr>agents := loadAgentRows rows (agents e)\<rparr>))"

fun loadSkillRows ::
  "SkillRow list \<Rightarrow> (string, SkillFile) js_map \<Rightarrow> (string, SkillFile) js_map" where
  "loadSkillRows [] m = m"
| "loadSkillRows (r # rs) m =
     (case sr_keywords r of
        None \<Rightarrow> m
      | Some ks \<Rightarrow>
          loadSkillRows rs
            (Map_set (sr_id r)
               \<lparr>sf_id = sr_id r, sf_name = sr_name r, sf_agent = sr_agent r,
                sf_description = sr_description r, sf_keywords = ks\<rparr> m))"

definition loadSkillFilesFromDB :: "RouterEngine \<Rightarrow> RouterEngine" where
  "loadSkillFilesFromDB e =
     (case db e of
        None \<Rightarrow> e
      | Some d \<Rightarrow>
          (case d1_skill_files d of
             None \<Rightarrow> e
           | Some rows \<Rightarrow> e\<lparr>skillFiles := loadSkillRows rows (skillFiles e)\<rparr>))"

definition getAgents :: "RouterEngine \<Rightarrow> Agent list" where
  "getAgents e = filter ag_enabled (Map_values (agents e))"

definition getAgent :: "RouterEngine \<Rightarrow> string \<Rightarrow> Agent option" where
  "getAgent e i = Map_get (agents e) i"

definition getSkillFiles :: "RouterEngine \<Rightarrow> SkillFile list" where
  "getSkillFiles e = Map_values (skillFiles e)"

definition findRelevantSkills :: "RouterEngine \<Rightarrow> string \<Rightarrow> string list \<Rightarrow> string list" where
  "findRelevantSkills e agentId keywords =
     take 3
       (map fst
          (filter (\<lambda>(skillId, skill).
                     sf_agent skill = agentId \<and>
                     list_ex (\<lambda>k. list_ex (\<lambda>mk. str_includes mk k \<or> str_includes k mk) keywords)
                             (sf_keywords skill))
                  (skillFiles e)))"

definition buildReason :: "string \<Rightarrow> string list \<Rightarrow> rat \<Rightarrow> string \<Rightarrow> string" where
  "buildReason agent keywords confidence complexity =
     (if length keywords = 0
      then ''Routed to '' @ agent @ '' (fallback, low keyword match)''
      else (let keywordList = join '', '' (take 3 keywords);
                confidenceLevel =
                  (if confidence \<ge> 75 / 100 then ''high''
                   else if confidence \<ge> 5 / 10 then ''medium'' else ''low'')
            in ''Keywords: '' @ keywordList @ '' matched '' @ agent @ '' agent ('' @
               confidenceLevel @ '' confidence, '' @ complexity @ '' complexity)''))"

definition estimateCost :: "RouterEngine \<Rightarrow> string \<Rightarrow> ComplexityAssessment \<Rightarrow> rat" where
  "estimateCost e agentId complexity =
     (case (case Map_get (agents e) agentId of
              None \<Rightarrow> None
            | Some agent \<Rightarrow>
                (case ag_costPerToken agent of
                   None \<Rightarrow> None
                 | Some c \<Rightarrow> (if c = 0 then None else Some c))) of
        None \<Rightarrow> 5 / 10
      | Some costPerToken \<Rightarrow>
          (let tokens = of_nat (ca_estimatedTokens complexity);
               baseCost = (tokens / 1000) * costPerToken;
               multiplier =
                 (case ca_level complexity of
                    Simple \<Rightarrow> 1
                  | Moderate \<Rightarrow> 15 / 10
                  | Complex \<Rightarrow> 25 / 10)
           in baseCost * multiplier))"

text \<open>
  The readings of the clock during one call of \<open>route\<close>: \<open>performance.now()\<close> at the
  start and at the end, and \<open>new Date().toISOString()\<close>.
\<close>

record route_clock =
  rc_start :: rat
  rc_end :: rat
  rc_iso :: string

definition route ::
  "RouterEngine \<Rightarrow> string \<Rightarrow> string option \<Rightarrow> (string \<times> string) list option \<Rightarrow>
   route_clock \<Rightarrow> RoutingDecision" where
  "route e message userId context clk =
     (let startTime = rc_start clk;
          agentScores = scoreMessage message;
          confidence = getConfidenceScore agentScores;
          complexity = assessComplexity message None;
          selectedAgent0 =
            (case agentScores of
               [] \<Rightarrow> FALLBACK_AGENT
             | topScore # _ \<Rightarrow>
                 (if as_agent topScore = [] then FALLBACK_AGENT else as_agent topScore));
          selectedAgent =
            (if ca_level complexity = Complex \<and> selectedAgent0 \<noteq> ''planning''
             then (case find (\<lambda>a. as_agent a = ''planning'') agentScores of
                     None \<Rightarrow> selectedAgent0
                   | Some planningScore \<Rightarrow>
                       (if as_score planningScore \<ge> 20 then ''planning'' else selectedAgent0))
             else selectedAgent0);
          matchedKeywords =
            (case agentScores of
               [] \<Rightarrow> []
             | topScore # _ \<Rightarrow> map km_keyword (take 5 (as_matches topScore)));
          estimatedCost = estimateCost e selectedAgent complexity;
          skillFilesUsed = findRelevantSkills e selectedAgent matchedKeywords;
          reason = buildReason selectedAgent matchedKeywords confidence
                     (level_str (ca_level complexity));
          latency = round2 (rc_end clk - startTime)
      in \<lparr>rd_agent = selectedAgent,
          rd_confidence = round2 confidence,
          rd_reason = reason,
          rd_skillFilesUsed = skillFilesUsed,
          rd_estimatedCost = round2 estimatedCost,
          rd_complexity = level_str (ca_level complexity),
          rd_latency = latency,
          rd_timestamp = rc_iso clk,
          rd_matchedKeywords = matchedKeywords\<rparr>)"

section \<open>cache.ts\<close>

record CachedRoutingDecision =
  cd_agent :: string
  cd_confidence :: rat
  cd_reason :: string
  cd_timestamp :: int
  cd_ttl :: int
  cd_hash :: string

record CacheStats =
  hits :: nat
  misses :: nat
  hitRate :: rat
  totalRequests :: nat
  avgLatency :: rat

text \<open>
  A KV namespace of the platform: the stored values under their keys, and whether its
  operations throw at the moment.
\<close>

record 'v KVNamespace =
  kv_data :: "(string, 'v) js_map"
  kv_throws :: bool

definition CACHE_TTL_SECONDS :: int where
  "CACHE_TTL_SECONDS = 3600"

record RoutingCache =
  cache :: "(string, CachedRoutingDecision) js_map"
  stats :: CacheStats
  kvNamespace :: "CachedRoutingDecision KVNamespace option"

definition RoutingCache_new :: "CachedRoutingDecision KVNamespace option \<Rightarrow> RoutingCache" where
  "RoutingCache_new kv =
     \<lparr>cache = [],
      stats = \<lparr>hits = 0, misses = 0, hitRate = 0, totalRequests = 0, avgLatency = 0\<rparr>,
      kvNamespace = kv\<rparr>"

text \<open>\<open>isExpired\<close> reads the clock: \<open>now\<close> is its \<open>Date.now()\<close>, in milliseconds.\<close>

definition isExpired :: "int \<Rightarrow> CachedRoutingDecision \<Rightarrow> bool" where
  "isExpired now decision = (let age = now - cd_timestamp decision in age > cd_ttl decision * 1000)"

definition updateStats :: "RoutingCache \<Rightarrow> RoutingCache" where
  "updateStats c =
     (let total = hits (stats c) + misses (stats c)
      in c\<lparr>stats := (stats c)\<lparr>totalRequests := total,
                               hitRate := (if total > 0
                                           then of_nat (hits (stats c)) / of_nat total
                                           else 0)\<rparr>\<rparr>)"

definition countHit :: "RoutingCache \<Rightarrow> RoutingCache" where
  "countHit c = updateStats (c\<lparr>stats := (stats c)\<lparr>hits := hits (stats c) + 1\<rparr>\<rparr>)"

definition countMiss :: "RoutingCache \<Rightarrow> RoutingCache" where
  "countMiss c = updateStats (c\<lparr>stats := (stats c)\<lparr>misses := misses (stats c) + 1\<rparr>\<rparr>)"

text \<open>
  \<open>RoutingCache.get\<close>. \<open>nowMem\<close> is the clock read by \<open>isExpired\<close> on the entry of the
  in-memory map, \<open>nowKv\<close> the clock read on the entry that the KV store returned.
\<close>

definition cache_get ::
  "RoutingCache \<Rightarrow> int \<Rightarrow> int \<Rightarrow> string \<Rightarrow> CachedRoutingDecision option \<times> RoutingCache" where
  "cache_get c nowMem nowKv messageHash =
     (case (case Map_get (cache c) messageHash of
              None \<Rightarrow> None
            | Some cached \<Rightarrow> (if \<not> isExpired nowMem cached then Some cached else None)) of
        Some cached \<Rightarrow> (Some cached, countHit c)
      | None \<Rightarrow>
          (case (case kvNamespace c of
                   None \<Rightarrow> None
                 | Some kv \<Rightarrow>
                     (if kv_throws kv then None
                      else (case Map_get (kv_data kv) (''routing:'' @ messageHash) of
                              None \<Rightarrow> None
                            | Some kvCached \<Rightarrow>
                                (if \<not> isExpired nowKv kvCached then Some kvCached
                                 else None)))) of
             Some kvCached \<Rightarrow>
               (Some kvCached, countHit (c\<lparr>cache := Map_set messageHash kvCached (cache c)\<rparr>))
           | None \<Rightarrow> (None, countMiss c)))"

definition cache_set :: "RoutingCache \<Rightarrow> string \<Rightarrow> CachedRoutingDecision \<Rightarrow> RoutingCache" where
  "cache_set c messageHash decision =
     (let c1 = c\<lparr>cache := Map_set messageHash decision (cache c)\<rparr>
      in (case kvNamespace c1 of
            None \<Rightarrow> c1
          | Some kv \<Rightarrow>
              (if kv_throws kv then c1
               else c1\<lparr>kvNamespace :=
                        Some (kv\<lparr>kv_data :=
                                   Map_set (''routing:'' @ messageHash) decision
                                     (kv_data kv)\<rparr>)\<rparr>)))"

record AuditLogger =
  audit_kv :: "AuditLogEntry KVNamespace option"
  audit_db :: "D1Database option"

text \<open>\<open>String(n)\<close> for an integer, as the template of the audit key prints it.\<close>

fun showNat :: "nat \<Rightarrow> string" where
  "showNat n =
     (if n < 10 then [''0123456789'' ! n]
      else showNat (n div 10) @ [''0123456789'' ! (n mod 10)])"

definition showInt :: "int \<Rightarrow> string" where
  "showInt i = (if i < 0 then ''-'' @ showNat (nat (- i)) else showNat (nat i))"

definition audit_log :: "AuditLogger \<Rightarrow> AuditLogEntry \<Rightarrow> AuditLogger" where
  "audit_log a entry =
     (let a1 =
            (case audit_kv a of
               None \<Rightarrow> a
             | Some kv \<Rightarrow>
                 (if kv_throws kv then a
                  else a\<lparr>audit_kv :=
                          Some (kv\<lparr>kv_data :=
                                     Map_set (''audit:'' @ showInt (al_timestamp entry) @ '':'' @
                                              al_id entry) entry (kv_data kv)\<rparr>)\<rparr>))
      in (case audit_db a1 of
            None \<Rightarrow> a1
          | Some d \<Rightarrow>
              (if at_throws (d1_audit d) then a1
               else a1\<lparr>audit_db :=
                        Some (d\<lparr>d1_audit :=
                                  (d1_audit d)\<lparr>at_rows := at_rows (d1_audit d) @ [entry]\<rparr>\<rparr>)\<rparr>)))"

section \<open>index.ts: the routing endpoint\<close>

record Env =
  SKILL_GRAPH_DB :: "D1Database option"
  ROUTING_CACHE :: "CachedRoutingDecision KVNamespace option"
  AUDIT_LOG :: "AuditLogEntry KVNamespace option"

text \<open>
  The global state of the worker, once initialised. The engine and the audit logger are
  given the same D1 database; the engine only reads its agents and skill files when it
  loads, the logger only appends to its audit table.
\<close>

record App =
  routerEngine :: RouterEngine
  routingCache :: RoutingCache
  auditLogger :: AuditLogger

text \<open>
  \<open>initializeRouter\<close>: the state is \<open>None\<close> before the first request. Neither the
  constructors nor the loaders throw (the loaders catch), so the handler of the
  initialisation error is never entered.
\<close>

definition initializeRouter :: "Env \<Rightarrow> App option \<Rightarrow> App" where
  "initializeRouter env st =
     (case st of
        Some app \<Rightarrow> app
      | None \<Rightarrow>
          \<lparr>routerEngine =
             loadSkillFilesFromDB
               (loadAgentsFromDB
                  (RouterEngine_new (SKILL_GRAPH_DB env) STATIC_AGENTS STATIC_SKILL_FILES)),
           routingCache = RoutingCache_new (ROUTING_CACHE env),
           auditLogger = \<lparr>audit_kv = AUDIT_LOG env, audit_db = SKILL_GRAPH_DB env\<rparr>\<rparr>)"

text \<open>
  The body of the request after \<open>c.req.json()\<close>; a field that is missing is \<open>None\<close>.
  The handler declares \<open>message\<close> a string.
\<close>

record RouteBody =
  rb_message :: "string option"
  rb_userId :: "string option"
  rb_context :: "(string \<times> string) list option"

text \<open>
  The variable \<open>routingDecision\<close> is of type \<open>any\<close>: it holds the object that the cache
  returned or the one that the engine returned. Reading a property that the object does not
  have gives \<open>undefined\<close>, here \<open>None\<close>.
\<close>

datatype decision_any = FromCache CachedRoutingDecision | FromEngine RoutingDecision

datatype js_stamp = StampIso string | StampMs int

fun any_agent :: "decision_any \<Rightarrow> string" where
  "any_agent (FromCache d) = cd_agent d"
| "any_agent (FromEngine d) = rd_agent d"

fun any_confidence :: "decision_any \<Rightarrow> rat" where
  "any_confidence (FromCache d) = cd_confidence d"
| "any_confidence (FromEngine d) = rd_confidence d"

fun any_reason :: "decision_any \<Rightarrow> string" where
  "any_reason (FromCache d) = cd_reason d"
| "any_reason (FromEngine d) = rd_reason d"

fun any_complexity :: "decision_any \<Rightarrow> string option" where
  "any_complexity (FromCache d) = None"
| "any_complexity (FromEngine d) = Some (rd_complexity d)"

fun any_estimatedCost :: "decision_any \<Rightarrow> rat option" where
  "any_estimatedCost (FromCache d) = None"
| "any_estimatedCost (FromEngine d) = Some (rd_estimatedCost d)"

fun any_skillFilesUsed :: "decision_any \<Rightarrow> string list option" where
  "any_skillFilesUsed (FromCache d) = None"
| "any_skillFilesUsed (FromEngine d) = Some (rd_skillFilesUsed d)"

fun any_matchedKeywords :: "decision_any \<Rightarrow> string list option" where
  "any_matchedKeywords (FromCache d) = None"
| "any_matchedKeywords (FromEngine d) = Some (rd_matchedKeywords d)"

fun any_timestamp :: "decision_any \<Rightarrow> js_stamp" where
  "any_timestamp (FromCache d) = StampMs (cd_timestamp d)"
| "any_timestamp (FromEngine d) = StampIso (rd_timestamp d)"

text \<open>\<open>x || d\<close>: the default replaces \<open>undefined\<close>, the empty string and the number 0.\<close>

definition or_str :: "string option \<Rightarrow> string \<Rightarrow> string" where
  "or_str x d = (case x of None \<Rightarrow> d | Some s \<Rightarrow> (if s = [] then d else s))"

definition or_num :: "rat option \<Rightarrow> rat \<Rightarrow> rat" where
  "or_num x d = (case x of None \<Rightarrow> d | Some n \<Rightarrow> (if n = 0 then d else n))"

definition or_list :: "string list option \<Rightarrow> string list \<Rightarrow> string list" where
  "or_list x d = (case x of None \<Rightarrow> d | Some l \<Rightarrow> l)"

definition or_stamp :: "js_stamp \<Rightarrow> string \<Rightarrow> js_stamp" where
  "or_stamp x d =
     (case x of
        StampIso s \<Rightarrow> (if s = [] then StampIso d else x)
      | StampMs n \<Rightarrow> (if n = 0 then StampIso d else x))"

record RouteResponse =
  rr_agent :: string
  rr_confidence :: rat
  rr_reason :: string
  rr_skillFilesUsed :: "string list"
  rr_estimatedCost :: rat
  rr_complexity :: string
  rr_latency :: rat
  rr_timestamp :: js_stamp
  rr_cached :: bool
  rr_matchedKeywords :: "string list"

datatype response =
    Routed RouteResponse
  | InvalidRequest
  | RoutingError

text \<open>
  \<open>Routed r\<close> is the answer 200 with the body \<open>r\<close>, \<open>InvalidRequest\<close> the answer 400
  with the code \<open>INVALID_REQUEST\<close>, \<open>RoutingError\<close> the answer 500 with the code
  \<open>ROUTING_ERROR\<close>.

  What one request reads from the platform: the clocks, the random id of the audit entry,
  and the SHA-256 digest in hexadecimal, a function of the message.
\<close>

record request_io =
  io_start :: rat
  io_end :: rat
  io_get_mem :: int
  io_get_kv :: int
  io_route :: route_clock
  io_set_now :: int
  io_audit_now :: int
  io_uuid :: string
  io_iso :: string
  generateHash :: "string \<Rightarrow> string"

definition api_route ::
  "Env \<Rightarrow> request_io \<Rightarrow> App option \<Rightarrow> RouteBody option \<Rightarrow> response \<times> App option" where
  "api_route env io st parsed =
     (let app = initializeRouter env st
      in (case parsed of
            None \<Rightarrow> (RoutingError, Some app)
          | Some body \<Rightarrow>
              (case (case rb_message body of
                       None \<Rightarrow> None
                     | Some m \<Rightarrow> (if m = [] then None else Some m)) of
                 None \<Rightarrow> (InvalidRequest, Some app)
               | Some msg \<Rightarrow>
                   (let messageHash = generateHash io msg;
                        looked = cache_get (routingCache app) (io_get_mem io) (io_get_kv io)
                                   messageHash;
                        cached = (fst looked \<noteq> None);
                        routed =
                          (case fst looked of
                             Some hit \<Rightarrow> (FromCache hit, snd looked)
                           | None \<Rightarrow>
                               (let d = route (routerEngine app) msg (rb_userId body)
                                          (rb_context body) (io_route io)
                                in (FromEngine d,
                                    cache_set (snd looked) messageHash
                                      \<lparr>cd_agent = rd_agent d,
                                       cd_confidence = rd_confidence d,
                                       cd_reason = rd_reason d,
                                       cd_timestamp = io_set_now io,
                                       cd_ttl = 3600,
                                       cd_hash = messageHash\<rparr>)));
                        routingDecision = fst routed;
                        latency = round2 (io_end io - io_start io);
                        logger =
                          audit_log (auditLogger app)
                            \<lparr>al_id = io_uuid io,
                             al_timestamp = io_audit_now io,
                             al_messageHash = messageHash,
                             al_message = take 500 msg,
                             al_agent = any_agent routingDecision,
                             al_confidence = any_confidence routingDecision,
                             al_complexity = or_str (any_complexity routingDecision) ''unknown'',
                             al_estimatedCost = or_num (any_estimatedCost routingDecision) 0,
                             al_cached = cached,
                             al_latency = latency,
                             al_userId = rb_userId body,
                             al_metadata = rb_context body\<rparr>
                    in (Routed
                          \<lparr>rr_agent = any_agent routingDecision,
                           rr_confidence = any_confidence routingDecision,
                           rr_reason = any_reason routingDecision,
                           rr_skillFilesUsed = or_list (any_skillFilesUsed routingDecision) [],
                           rr_estimatedCost = or_num (any_estimatedCost routingDecision) 0,
                           rr_complexity = or_str (any_complexity routingDecision) ''unknown'',
                           rr_latency = latency,
                           rr_timestamp = or_stamp (any_timestamp routingDecision) (io_iso io),
                           rr_cached = cached,
                           rr_matchedKeywords =
                             or_list (any_matchedKeywords routingDecision) []\<rparr>,
                        Some (app\<lparr>routingCache := snd routed, auditLogger := logger\<rparr>))))))"

section \<open>The Registry, and the inputs of the examples\<close>

text \<open>
  An id names an agent that is present and enabled in the Registry of the engine:
  \<open>getAgent\<close> finds it and its flag \<open>enabled\<close> is set.
\<close>

definition isEnabledAgent :: "RouterEngine \<Rightarrow> string \<Rightarrow> bool" where
  "isEnabledAgent e i = (case getAgent e i of None \<Rightarrow> False | Some a \<Rightarrow> ag_enabled a)"

text \<open>\<open>new RouterEngine()\<close>, the engine of the tests.\<close>

definition staticEngine :: RouterEngine where
  "staticEngine = RouterEngine_new None STATIC_AGENTS STATIC_SKILL_FILES"

text \<open>An engine whose Registry holds the planning agent only, and one whose Registry is empty.\<close>

definition planningOnlyEngine :: RouterEngine where
  "planningOnlyEngine =
     RouterEngine_new None (filter (\<lambda>a. ag_id a = ''planning'') STATIC_AGENTS) []"

definition emptyEngine :: RouterEngine where
  "emptyEngine = RouterEngine_new None [] []"

text \<open>The state of a worker whose engine has the empty Registry.\<close>

definition emptyApp :: App where
  "emptyApp =
     \<lparr>routerEngine = emptyEngine, routingCache = RoutingCache_new None,
      auditLogger = \<lparr>audit_kv = None, audit_db = None\<rparr>\<rparr>"

definition clock0 :: route_clock where
  "clock0 = \<lparr>rc_start = 0, rc_end = 1 / 3, rc_iso = ''2026-02-18T00:00:00.000Z''\<rparr>"

definition env0 :: Env where
  "env0 = \<lparr>SKILL_GRAPH_DB = None, ROUTING_CACHE = None, AUDIT_LOG = None\<rparr>"

text \<open>
  The readings of one request; the digest stands for SHA-256 and is any injective function.
\<close>

definition io0 :: request_io where
  "io0 =
     \<lparr>io_start = 0, io_end = 5 / 4, io_get_mem = 1000, io_get_kv = 1001, io_route = clock0,
      io_set_now = 1002, io_audit_now = 1003, io_uuid = ''00000000-0000-4000-8000-000000000000'',
      io_iso = ''2026-02-18T00:00:01.000Z'', generateHash = (\<lambda>m. ''sha256:'' @ m)\<rparr>"

definition scenarioText :: string where
  "scenarioText = ''Design a secure payment API with caching''"

text \<open>
  A request that names 23 keywords of the codegen agent and 21 of the planning agent, among
  them three indicators of a complex task (optimize, refactor, performance).
\<close>

definition overrideWords :: "string list" where
  "overrideWords =
     [''code'', ''build'', ''write'', ''class'', ''route'', ''debug'', ''fix'', ''error'',
      ''bug'', ''test'', ''setup'', ''react'', ''vue'', ''rust'', ''java'', ''query'',
      ''method'', ''create'', ''deploy'', ''python'', ''optimize'', ''refactor'',
      ''performance'',
      ''plan'', ''task'', ''team'', ''cost'', ''risk'', ''epic'', ''scope'', ''phase'',
      ''sprint'', ''budget'', ''review'', ''process'', ''project'', ''roadmap'', ''strategy'',
      ''timeline'', ''workflow'', ''proposal'', ''deadline'', ''milestone'', ''estimate'']"

definition overrideText :: string where
  "overrideText = join '' '' overrideWords"

text \<open>
  Names for the proofs about \<open>overrideText\<close> (they are not in the source): the keywords
  of an agent of \<open>KEYWORD_SETS\<close>; the first word of a keyword; whether one of the
  words includes a keyword; and a keyword whose presence in a text of words can be decided
  word by word: it has no space, or no word includes its first word.
\<close>

definition keywordsOf :: "string \<Rightarrow> string list" where
  "keywordsOf agent =
     (case map_of KEYWORD_SETS agent of
        None \<Rightarrow> []
      | Some domains \<Rightarrow> (case domains of [] \<Rightarrow> [] | (d, keywords) # _ \<Rightarrow> keywords))"

definition firstWord :: "string \<Rightarrow> string" where
  "firstWord k = takeWhile (\<lambda>c. c \<noteq> CHR '' '') k"

definition wordsInclude :: "string list \<Rightarrow> string \<Rightarrow> bool" where
  "wordsInclude ws k = list_ex (\<lambda>w. str_includes w k) ws"

definition checkable :: "string list \<Rightarrow> string \<Rightarrow> bool" where
  "checkable ws k =
     (if firstWord k = [] then False
      else if firstWord k = k then True
      else \<not> wordsInclude ws (firstWord k))"

text \<open>A cache entry written at time 1000 ms with the TTL of one hour, and a cache that holds it.\<close>

definition entry0 :: CachedRoutingDecision where
  "entry0 =
     \<lparr>cd_agent = ''codegen'', cd_confidence = 85 / 100, cd_reason = ''Test'',
      cd_timestamp = 1000, cd_ttl = 3600, cd_hash = ''test-hash''\<rparr>"

definition cache0 :: RoutingCache where
  "cache0 = cache_set (RoutingCache_new None) ''test-hash'' entry0"

text \<open>The body of a request with a message and nothing else.\<close>

definition bodyOf :: "string \<Rightarrow> RouteBody" where
  "bodyOf m = \<lparr>rb_message = Some m, rb_userId = None, rb_context = None\<rparr>"


section \<open>Properties of the keyword scores\<close>

text \<open>
  Every element of the output of \<open>scoreMessage\<close> is the score that \<open>scoreAgent\<close>
  computed for one agent of \<open>KEYWORD_SETS\<close>.
\<close>

lemma Map_set_values: "set (Map_values (Map_set k v m)) \<subseteq> insert v (set (Map_values m))"
  unfolding Map_values_def Map_set_def
  by (induction m) auto

lemma fold_agentScores_values:
  "x \<in> set (Map_values (fold (\<lambda>(agent, domains) m. Map_set agent (f agent domains) m) ks m0)) \<Longrightarrow>
   x \<in> set (Map_values m0) \<or> (\<exists>(agent, domains) \<in> set ks. x = f agent domains)"
proof (induction ks arbitrary: m0)
  case Nil
  then show ?case by simp
next
  case (Cons p ps)
  obtain a d where p: "p = (a, d)" by (cases p)
  from Cons.prems have "x \<in> set (Map_values (fold (\<lambda>(agent, domains) m. Map_set agent (f agent domains) m) ps (Map_set a (f a d) m0)))"
    by (simp add: p)
  from Cons.IH[OF this] show ?case
    using Map_set_values[of a "f a d" m0] by (auto simp: p)
qed

lemma toSortedDesc_set: "set (toSortedDesc f xs) = set xs"
  by (simp add: toSortedDesc_def)

lemma scoreMessage_elems:
  assumes "x \<in> set (scoreMessage t)"
  shows "\<exists>agent domains kws nt. (agent, domains) \<in> set KEYWORD_SETS \<and> x = scoreAgent kws nt agent domains"
proof -
  from assms obtain kws nt where
    "x \<in> set (Map_values (fold (\<lambda>(agent, domains) m. Map_set agent (scoreAgent kws nt agent domains) m) KEYWORD_SETS []))"
    unfolding scoreMessage_def Let_def toSortedDesc_set by blast
  from fold_agentScores_values[OF this] show ?thesis
    by (auto simp: Map_values_def)
qed

lemma scoreAgent_agent: "as_agent (scoreAgent kws nt agent domains) = agent"
  by (simp add: scoreAgent_def split: prod.splits)

lemma scoreKeyword_nonneg:
  "0 \<le> snd (snd st) \<Longrightarrow> 0 \<le> snd (snd (scoreKeyword kws nt ag dn k st))"
  by (cases st) (auto simp: scoreKeyword_def Let_def DEFAULT_CONFIDENCE_def KEYWORD_WEIGHT_def COMPOUND_KEYWORD_BOOST_def)

lemma fold_scoreKeyword_nonneg:
  "0 \<le> snd (snd st) \<Longrightarrow> 0 \<le> snd (snd (fold (scoreKeyword kws nt ag dn) ks st))"
proof (induction ks arbitrary: st)
  case Nil
  then show ?case by simp
next
  case (Cons k ks)
  have "0 \<le> snd (snd (scoreKeyword kws nt ag dn k st))"
    by (rule scoreKeyword_nonneg) (rule Cons.prems)
  from Cons.IH[OF this] show ?case by simp
qed

lemma scoreDomain_nonneg:
  "0 \<le> snd (snd st) \<Longrightarrow> 0 \<le> snd (snd (scoreDomain kws nt ag dk st))"
proof -
  assume a: "0 \<le> snd (snd st)"
  obtain d ks where dk: "dk = (d, ks)" by (cases dk)
  obtain ms dsc tot where st: "st = (ms, dsc, tot)" by (cases st)
  obtain ms' dsc' tot' where f: "fold (scoreKeyword kws nt ag d) ks (ms, 0, tot) = (ms', dsc', tot')"
    by (cases "fold (scoreKeyword kws nt ag d) ks (ms, 0, tot)")
  from a st have "0 \<le> snd (snd (fold (scoreKeyword kws nt ag d) ks (ms, 0, tot)))"
    by (intro fold_scoreKeyword_nonneg) simp
  then show ?thesis
    by (simp add: scoreDomain_def dk st f)
qed

lemma fold_scoreDomain_nonneg:
  "0 \<le> snd (snd st) \<Longrightarrow> 0 \<le> snd (snd (fold (scoreDomain kws nt ag) ds st))"
proof (induction ds arbitrary: st)
  case Nil
  then show ?case by simp
next
  case (Cons d ds)
  have "0 \<le> snd (snd (scoreDomain kws nt ag d st))"
    by (rule scoreDomain_nonneg) (rule Cons.prems)
  from Cons.IH[OF this] show ?case by simp
qed

lemma scoreAgent_score: "0 \<le> as_score (scoreAgent kws nt agent domains) \<and> as_score (scoreAgent kws nt agent domains) \<le> 100"
proof -
  have "0 \<le> snd (snd (fold (scoreDomain kws nt agent) domains ([], [], 0)))"
    by (intro fold_scoreDomain_nonneg) simp
  then show ?thesis
    by (cases "fold (scoreDomain kws nt agent) domains ([], [], 0)")
       (auto simp: scoreAgent_def)
qed

lemma scoreMessage_score:
  "x \<in> set (scoreMessage t) \<Longrightarrow> 0 \<le> as_score x \<and> as_score x \<le> 100"
  using scoreMessage_elems scoreAgent_score by blast

lemma scoreMessage_agent:
  "x \<in> set (scoreMessage t) \<Longrightarrow> as_agent x \<in> set (map fst KEYWORD_SETS)"
  using scoreMessage_elems[of x t] scoreAgent_agent by force

lemma getConfidenceScore_range:
  assumes "\<forall>x \<in> set scores. 0 \<le> as_score x \<and> as_score x \<le> 100"
  shows "0 \<le> getConfidenceScore scores \<and> getConfidenceScore scores \<le> 1"
proof (cases scores)
  case Nil
  then show ?thesis by (simp add: getConfidenceScore_def)
next
  case (Cons s0 rest)
  with assms have b: "0 \<le> as_score s0" "as_score s0 \<le> 100" by auto
  show ?thesis
    using b by (auto simp: getConfidenceScore_def Cons Let_def min_def)
qed

lemma round2_range: "0 \<le> x \<Longrightarrow> x \<le> 1 \<Longrightarrow> 0 \<le> round2 x \<and> round2 x \<le> 1"
proof -
  assume a: "0 \<le> x" "x \<le> 1"
  have "0 \<le> \<lfloor>x * 100 + 1 / 2\<rfloor>" using a by simp
  moreover have "\<lfloor>x * 100 + 1 / 2\<rfloor> \<le> 100"
  proof -
    have "x * 100 + 1 / 2 < 101" using a by simp
    then have "\<lfloor>x * 100 + 1 / 2\<rfloor> < 101" by (simp add: floor_less_iff)
    then show ?thesis by simp
  qed
  ultimately show ?thesis
    by (simp add: round2_def Math_round_def)
qed

section \<open>The agent of a decision and the Registry\<close>

lemma route_agent_cases:
  "rd_agent (route e m u c k) = ''planning'' \<or>
   (\<exists>x \<in> set (scoreMessage m). rd_agent (route e m u c k) = as_agent x)"
  by (auto simp: route_def Let_def FALLBACK_AGENT_def split: list.splits option.splits)

lemma planning_in_table: "''planning'' \<in> set (map fst KEYWORD_SETS)"
  by (simp add: KEYWORD_SETS_def)

lemma route_agent_in_table: "rd_agent (route e m u c k) \<in> set (map fst KEYWORD_SETS)"
  using route_agent_cases[of e m u c k] planning_in_table scoreMessage_agent by metis

lemma no_enabled_agent:
  assumes "getAgents e = []"
  shows "\<not> isEnabledAgent e i"
proof
  assume "isEnabledAgent e i"
  then obtain a where a: "map_of (agents e) i = Some a" "ag_enabled a"
    by (auto simp: isEnabledAgent_def getAgent_def Map_get_def split: option.splits)
  then have "a \<in> set (map snd (agents e))"
    by (metis map_of_SomeD image_eqI set_map snd_conv)
  with a(2) have "a \<in> set (getAgents e)"
    by (simp add: getAgents_def Map_values_def)
  with assms show False by simp
qed

text \<open>
  The Registry that the worker initialises, from the static agents and whatever the D1
  database returns, holds the four agents of the keyword table, enabled: the loader only
  adds enabled agents or overwrites an agent by an enabled one.
\<close>

lemma loadAgentRows_enabled:
  assumes "\<forall>i a. map_of m i = Some a \<longrightarrow> ag_enabled a"
  shows "\<forall>i a. map_of (loadAgentRows rs m) i = Some a \<longrightarrow> ag_enabled a"
  using assms
proof (induction rs arbitrary: m)
  case Nil
  then show ?case by simp
next
  case (Cons r rs)
  show ?case
  proof (cases "ar_keywords r")
    case None
    with Cons.prems show ?thesis by simp
  next
    case ks: (Some ks)
    show ?thesis
    proof (cases "ar_domains r")
      case None
      with ks Cons.prems show ?thesis by simp
    next
      case (Some ds)
      have "\<forall>i a. map_of (Map_set (ar_id r)
                \<lparr>ag_id = ar_id r, ag_name = ar_name r, ag_description = ar_description r,
                 ag_keywords = ks, ag_domains = ds, ag_costPerToken = ar_cost_per_token r,
                 ag_maxTokens = ar_max_tokens r, ag_enabled = True\<rparr> m) i = Some a
              \<longrightarrow> ag_enabled a"
        using Cons.prems by (auto simp: Map_set_def update_conv')
      from Cons.IH[OF this] ks Some show ?thesis by simp
    qed
  qed
qed

lemma loadAgentRows_keys: "i \<in> dom (map_of m) \<Longrightarrow> i \<in> dom (map_of (loadAgentRows rs m))"
proof (induction rs arbitrary: m)
  case Nil
  then show ?case by simp
next
  case (Cons r rs)
  have "i \<in> dom (map_of (Map_set k v m))" for k v
    using Cons.prems by (auto simp: Map_set_def update_conv')
  with Cons show ?case by (auto split: option.splits)
qed

lemma static_agents_map:
  "\<forall>i a. map_of (agents (RouterEngine_new d STATIC_AGENTS sks)) i = Some a \<longrightarrow> ag_enabled a"
  "set (map fst KEYWORD_SETS) \<subseteq> dom (map_of (agents (RouterEngine_new d STATIC_AGENTS sks)))"
  by (auto simp: RouterEngine_new_def STATIC_AGENTS_def Map_set_def KEYWORD_SETS_def
           split: if_splits)

lemma initialised_registry_holds_table_agents:
  "\<forall>i \<in> set (map fst KEYWORD_SETS). isEnabledAgent (routerEngine (initializeRouter env None)) i"
proof
  fix i assume i: "i \<in> set (map fst KEYWORD_SETS)"
  define e0 where "e0 = RouterEngine_new (SKILL_GRAPH_DB env) STATIC_AGENTS STATIC_SKILL_FILES"
  define e where "e = routerEngine (initializeRouter env None)"
  have ag: "agents e = agents e0 \<or> (\<exists>rows. agents e = loadAgentRows rows (agents e0))"
    by (auto simp: e_def e0_def initializeRouter_def loadSkillFilesFromDB_def
          loadAgentsFromDB_def split: option.splits)
  have en: "\<forall>i a. map_of (agents e) i = Some a \<longrightarrow> ag_enabled a"
    using ag static_agents_map(1)[of "SKILL_GRAPH_DB env" STATIC_SKILL_FILES]
      loadAgentRows_enabled unfolding e0_def by metis
  have "i \<in> dom (map_of (agents e0))"
    using i static_agents_map(2) unfolding e0_def by blast
  then have "i \<in> dom (map_of (agents e))"
    using ag loadAgentRows_keys by metis
  then obtain a where "map_of (agents e) i = Some a" by auto
  with en show "isEnabledAgent (routerEngine (initializeRouter env None)) i"
    by (auto simp: isEnabledAgent_def getAgent_def Map_get_def e_def)
qed

text \<open>
  Claim C1, as stated: for every non-empty text and every Registry, the agent of the decision
  is present and enabled in the Registry. It fails: \<open>route\<close> chooses among the agents of
  \<open>KEYWORD_SETS\<close> and never reads the Registry. With a Registry that holds the planning
  agent only, the text "fix the bug" is routed to codegen, which the Registry does not hold.
\<close>

theorem route_agent_absent_from_registry:
  "''fix the bug'' \<noteq> [] \<and>
   \<not> isEnabledAgent planningOnlyEngine
        (rd_agent (route planningOnlyEngine ''fix the bug'' None None clock0))"
  by code_simp

text \<open>
  Claim C1, amended: for every text and every Registry in which the four agents of the
  keyword table (codegen, planning, security, infrastructure) are present and enabled, the
  agent of the decision is present and enabled in the Registry.
\<close>

theorem route_agent_enabled_if_table_agents_enabled:
  assumes "\<forall>i \<in> set (map fst KEYWORD_SETS). isEnabledAgent e i"
  shows "isEnabledAgent e (rd_agent (route e m u c k))"
  using assms route_agent_in_table by blast

theorem route_agent_enabled_static_registry:
  "list_all (isEnabledAgent staticEngine) (map fst KEYWORD_SETS) \<and>
   isEnabledAgent staticEngine (rd_agent (route staticEngine ''fix the bug'' None None clock0))"
proof -
  have l: "list_all (isEnabledAgent staticEngine) (map fst KEYWORD_SETS)"
    by code_simp
  then have h: "\<forall>i \<in> set (map fst KEYWORD_SETS). isEnabledAgent staticEngine i"
    by (simp add: list_all_iff)
  from route_agent_enabled_if_table_agents_enabled[OF h] l show ?thesis by blast
qed

text \<open>
  Claim C2, as stated: with no enabled agent in the Registry, \<open>route\<close> fails with a
  configuration error and names no agent. It fails: \<open>route\<close> has no such check and no
  \<open>throw\<close>; with the empty Registry it returns a decision that names codegen.
\<close>

theorem route_empty_registry_names_codegen:
  "getAgents emptyEngine = [] \<and>
   rd_agent (route emptyEngine ''Deploy the application'' None None clock0) = ''codegen''"
  by code_simp

text \<open>
  Claim C2, amended: for every text, when the Registry has no enabled agent, \<open>route\<close>
  still returns a decision and the endpoint does not answer with an error of routing; the
  agent of the decision is one of the four agents of the keyword table, and it is not an
  enabled agent of the Registry.
\<close>

theorem route_without_enabled_agents_still_decides:
  assumes "getAgents e = []" and "routerEngine app = e"
  shows "rd_agent (route e m u c k) \<in> set (map fst KEYWORD_SETS) \<and>
         \<not> isEnabledAgent e (rd_agent (route e m u c k)) \<and>
         fst (api_route env io (Some app) (Some body)) \<noteq> RoutingError"
proof -
  have "fst (api_route env io (Some app) (Some body)) \<noteq> RoutingError"
    by (auto simp: api_route_def Let_def split: option.splits)
  with route_agent_in_table no_enabled_agent[OF assms(1)] show ?thesis by blast
qed

theorem route_empty_registry_decides:
  "getAgents emptyEngine = [] \<and>
   rd_agent (route emptyEngine ''Review security'' None None clock0)
     \<in> set (map fst KEYWORD_SETS) \<and>
   \<not> isEnabledAgent emptyEngine
        (rd_agent (route emptyEngine ''Review security'' None None clock0)) \<and>
   fst (api_route env0 io0 (Some emptyApp) (Some (bodyOf ''Review security''))) \<noteq> RoutingError"
proof -
  have h: "getAgents emptyEngine = []" by code_simp
  have a: "routerEngine emptyApp = emptyEngine" by (simp add: emptyApp_def)
  from route_without_enabled_agents_still_decides[OF h a] h show ?thesis by blast
qed

section \<open>The scenario of the secure payment API\<close>

text \<open>
  Claim C3, as stated: for the text "Design a secure payment API with caching" the security
  agent wins or is the top-scored candidate, and the complexity is at least moderate.
  It fails: the first candidate of \<open>scoreMessage\<close>, and the agent of the decision, is
  codegen, and the level is simple.
\<close>

theorem scenario_codegen_first_and_simple:
  "rd_agent (route staticEngine scenarioText None None clock0) = ''codegen'' \<and>
   map as_agent (scoreMessage scenarioText) =
     [''codegen'', ''planning'', ''security'', ''infrastructure''] \<and>
   ca_level (assessComplexity scenarioText None) = Simple"
  by code_simp

text \<open>
  Claim C3, amended: for the text "Design a secure payment API with caching" the score of
  the security agent is 1, the highest score of the output of \<open>scoreMessage\<close> (other agents
  reach it too), and \<open>assessComplexity\<close> returns the score 2 and the level simple.
\<close>

theorem scenario_security_ties_and_simple:
  "map_of (map (\<lambda>a. (as_agent a, as_score a)) (scoreMessage scenarioText)) ''security''
     = Some 1 \<and>
   fold max (map as_score (scoreMessage scenarioText)) 0 = 1 \<and>
   ca_score (assessComplexity scenarioText None) = 2 \<and>
   ca_level (assessComplexity scenarioText None) = Simple"
  by code_simp

section \<open>Ranges, determinism and skill files\<close>

text \<open>
  Claim C6: for every text, the confidence that \<open>getConfidenceScore\<close> derives from the
  output of \<open>scoreMessage\<close> lies in [0, 1] and the level of \<open>assessComplexity\<close> is one of
  simple, moderate, complex; so the confidence of every decision lies in [0, 1] and its
  complexity is one of the three.
\<close>

theorem confidence_and_complexity_ranges:
  "0 \<le> getConfidenceScore (scoreMessage t) \<and> getConfidenceScore (scoreMessage t) \<le> 1 \<and>
   level_str (ca_level (assessComplexity t a)) \<in> {''simple'', ''moderate'', ''complex''} \<and>
   0 \<le> rd_confidence (route e t u c k) \<and> rd_confidence (route e t u c k) \<le> 1 \<and>
   rd_complexity (route e t u c k) \<in> {''simple'', ''moderate'', ''complex''}"
proof -
  have conf: "0 \<le> getConfidenceScore (scoreMessage t) \<and> getConfidenceScore (scoreMessage t) \<le> 1"
    by (rule getConfidenceScore_range) (simp add: scoreMessage_score)
  have lv: "level_str l \<in> {''simple'', ''moderate'', ''complex''}" for l
    by (cases l) simp_all
  have rc: "rd_confidence (route e t u c k) = round2 (getConfidenceScore (scoreMessage t))"
    by (simp add: route_def Let_def)
  have rl: "rd_complexity (route e t u c k) = level_str (ca_level (assessComplexity t None))"
    by (simp add: route_def Let_def)
  show ?thesis
    using conf lv round2_range[of "getConfidenceScore (scoreMessage t)"] unfolding rc rl by blast
qed

text \<open>
  Claim C9: for every text and every Registry, two calls of \<open>route\<close>, whatever their
  caller id, context and clock readings, return the same agent, the same complexity and the
  same matched keywords.
\<close>

theorem route_deterministic_fields:
  "rd_agent (route e m u1 c1 k1) = rd_agent (route e m u2 c2 k2) \<and>
   rd_complexity (route e m u1 c1 k1) = rd_complexity (route e m u2 c2 k2) \<and>
   rd_matchedKeywords (route e m u1 c1 k1) = rd_matchedKeywords (route e m u2 c2 k2)"
  by (simp add: route_def Let_def)

lemma findRelevantSkills_length: "length (findRelevantSkills e a kws) \<le> 3"
  by (simp add: findRelevantSkills_def)

lemma findRelevantSkills_owned:
  assumes "i \<in> set (findRelevantSkills e a kws)"
  shows "\<exists>sk. (i, sk) \<in> set (skillFiles e) \<and> sf_agent sk = a"
proof -
  from assms have "i \<in> set (map fst (filter (\<lambda>(skillId, skill).
                     sf_agent skill = a \<and>
                     list_ex (\<lambda>k. list_ex (\<lambda>mk. str_includes mk k \<or> str_includes k mk) kws)
                             (sf_keywords skill)) (skillFiles e)))"
    unfolding findRelevantSkills_def by (rule in_set_takeD)
  then show ?thesis by auto
qed

text \<open>
  The keys of a JavaScript \<open>Map\<close> are distinct; the constructor and the loaders of the
  engine build their maps with \<open>set\<close>, which keeps them so.
\<close>

lemma Map_set_distinct: "distinct (map fst m) \<Longrightarrow> distinct (map fst (Map_set k v m))"
  by (simp add: Map_set_def distinct_update)

lemma fold_Map_set_distinct:
  "distinct (map fst m) \<Longrightarrow> distinct (map fst (fold (\<lambda>x. Map_set (f x) x) xs m))"
  by (induction xs arbitrary: m) (simp_all add: Map_set_distinct)

lemma loadSkillRows_distinct:
  "distinct (map fst m) \<Longrightarrow> distinct (map fst (loadSkillRows rs m))"
  by (induction rs arbitrary: m) (auto simp: Map_set_distinct split: option.splits)

lemma engine_skillFiles_distinct:
  "distinct (map fst (skillFiles
     (loadSkillFilesFromDB (loadAgentsFromDB (RouterEngine_new d ags sks)))))"
proof -
  have "distinct (map fst (skillFiles (RouterEngine_new d ags sks)))"
    by (simp add: RouterEngine_new_def fold_Map_set_distinct)
  then show ?thesis
    by (auto simp: loadSkillFilesFromDB_def loadAgentsFromDB_def loadSkillRows_distinct
             split: option.splits)
qed

text \<open>
  Claim C7: for every text, the list \<open>skillFilesUsed\<close> of the decision has at most 3 ids,
  and each id is the key of a skill file of the engine whose owning agent is the agent of
  the same decision. The engine is any whose map of skill files has distinct keys.
\<close>

theorem skillFilesUsed_owned_by_selected_agent:
  assumes "distinct (map fst (skillFiles e))"
  shows "length (rd_skillFilesUsed (route e m u c k)) \<le> 3 \<and>
         (\<forall>i \<in> set (rd_skillFilesUsed (route e m u c k)).
            \<exists>sk. Map_get (skillFiles e) i = Some sk \<and>
                 sf_agent sk = rd_agent (route e m u c k))"
proof -
  obtain a kws where sk: "rd_skillFilesUsed (route e m u c k) = findRelevantSkills e a kws"
    and ag: "rd_agent (route e m u c k) = a"
    by (simp add: route_def Let_def)
  show ?thesis
    unfolding sk ag
    using findRelevantSkills_length findRelevantSkills_owned assms
    by (metis Map_get_def map_of_eq_Some_iff)
qed

theorem skillFilesUsed_owned_static_engine:
  "distinct (map fst (skillFiles staticEngine)) \<and>
   ''agent-codegen''
     \<in> set (rd_skillFilesUsed (route staticEngine ''Implement the code'' None None clock0)) \<and>
   (\<exists>sk. Map_get (skillFiles staticEngine) ''agent-codegen'' = Some sk \<and>
         sf_agent sk = rd_agent (route staticEngine ''Implement the code'' None None clock0))"
proof -
  have h: "distinct (map fst (skillFiles staticEngine))" by code_simp
  have m: "''agent-codegen''
             \<in> set (rd_skillFilesUsed (route staticEngine ''Implement the code'' None None clock0))"
    by code_simp
  from skillFilesUsed_owned_by_selected_agent[OF h, of "''Implement the code''" None None clock0]
    h m show ?thesis by blast
qed

section \<open>The cache\<close>

text \<open>
  Claim C8: \<open>RoutingCache.get\<close> never returns an entry whose age, the clock read by
  \<open>isExpired\<close> minus the timestamp of the entry, exceeds the TTL of the entry (in seconds,
  so times 1000): an entry that it returns comes from the in-memory map or from the KV store
  and is within its TTL at the reading of its check; and when the entries of both tiers are
  older than their TTL, it returns nothing, so that the caller recomputes.
\<close>

theorem cache_get_returns_only_fresh_entries:
  "(cache_get c nowMem nowKv h = (Some d, c') \<longrightarrow>
      (Map_get (cache c) h = Some d \<and> nowMem - cd_timestamp d \<le> cd_ttl d * 1000) \<or>
      (\<exists>kv. kvNamespace c = Some kv \<and> Map_get (kv_data kv) (''routing:'' @ h) = Some d \<and>
            nowKv - cd_timestamp d \<le> cd_ttl d * 1000)) \<and>
   ((\<forall>d. Map_get (cache c) h = Some d \<longrightarrow> nowMem - cd_timestamp d > cd_ttl d * 1000) \<and>
    (\<forall>kv d. kvNamespace c = Some kv \<and> Map_get (kv_data kv) (''routing:'' @ h) = Some d \<longrightarrow>
            nowKv - cd_timestamp d > cd_ttl d * 1000) \<longrightarrow>
      fst (cache_get c nowMem nowKv h) = None)"
  by (auto simp: cache_get_def isExpired_def Let_def split: option.splits if_splits)

theorem cache_get_fresh_then_stale:
  "fst (cache_get cache0 3601000 3601000 ''test-hash'') = Some entry0 \<and>
   3601000 - cd_timestamp entry0 \<le> cd_ttl entry0 * 1000 \<and>
   3601001 - cd_timestamp entry0 > cd_ttl entry0 * 1000 \<and>
   fst (cache_get cache0 3601001 3601001 ''test-hash'') = None"
proof -
  have g: "cache_get cache0 3601000 3601000 ''test-hash'' =
             (Some entry0, snd (cache_get cache0 3601000 3601000 ''test-hash''))"
    by (rule prod_eqI) (code_simp, simp)
  have m: "Map_get (cache cache0) ''test-hash'' = Some entry0" by code_simp
  have k: "kvNamespace cache0 = None" by code_simp
  have e: "3601001 - cd_timestamp entry0 > cd_ttl entry0 * 1000" by code_simp
  have stale: "(\<forall>d. Map_get (cache cache0) ''test-hash'' = Some d \<longrightarrow>
                   3601001 - cd_timestamp d > cd_ttl d * 1000) \<and>
               (\<forall>kv d. kvNamespace cache0 = Some kv \<and>
                   Map_get (kv_data kv) (''routing:'' @ ''test-hash'') = Some d \<longrightarrow>
                   3601001 - cd_timestamp d > cd_ttl d * 1000)"
    using m k e by simp
  from cache_get_returns_only_fresh_entries[of cache0 3601000 3601000 "''test-hash''" entry0
            "snd (cache_get cache0 3601000 3601000 ''test-hash'')"] g m k
  have fresh: "3601000 - cd_timestamp entry0 \<le> cd_ttl entry0 * 1000" by auto
  from cache_get_returns_only_fresh_entries[of cache0 3601001 3601001 "''test-hash''"] stale
  have none: "fst (cache_get cache0 3601001 3601001 ''test-hash'') = None" by blast
  from g fresh e none show ?thesis by (metis fst_conv)
qed

section \<open>The routing endpoint\<close>

text \<open>After a miss of the cache the handler calls the engine: the answer is a fresh decision.\<close>

lemma api_route_miss_recomputes:
  assumes "rb_message body = Some m" and "m \<noteq> []"
    and "fst (cache_get (routingCache (initializeRouter env st)) (io_get_mem io) (io_get_kv io)
               (generateHash io m)) = None"
  shows "\<exists>r. fst (api_route env io st (Some body)) = Routed r \<and> \<not> rr_cached r \<and>
             rr_agent r = rd_agent (route (routerEngine (initializeRouter env st)) m
                                      (rb_userId body) (rb_context body) (io_route io))"
  using assms by (simp add: api_route_def Let_def)

text \<open>
  Claim C5, as stated: a request whose message is empty, missing or made of white space only
  is rejected before any scoring happens. It fails for white space: the handler tests
  \<open>!message\<close> and does not trim, so the message of three spaces is routed and answered 200.
\<close>

theorem whitespace_message_is_routed:
  "fst (api_route env0 io0 None (Some (bodyOf ''   ''))) =
     Routed \<lparr>rr_agent = ''codegen'', rr_confidence = 0,
             rr_reason = ''Routed to codegen (fallback, low keyword match)'',
             rr_skillFilesUsed = [], rr_estimatedCost = 0, rr_complexity = ''simple'',
             rr_latency = 5 / 4, rr_timestamp = StampIso ''2026-02-18T00:00:00.000Z'',
             rr_cached = False, rr_matchedKeywords = []\<rparr>"
  by code_simp

text \<open>
  Claim C5, amended: every request whose message is missing or is the empty string is
  rejected with the client error \<open>INVALID_REQUEST\<close> before the cache is read and before any
  scoring: the state is the initialised state, untouched, and no decision is produced. Every
  request with a non-empty message, white space included, is answered with a decision.
\<close>

theorem api_route_rejects_exactly_empty_message:
  "((rb_message body = None \<or> rb_message body = Some []) \<longrightarrow>
      api_route env io st (Some body) = (InvalidRequest, Some (initializeRouter env st))) \<and>
   ((\<exists>m. rb_message body = Some m \<and> m \<noteq> []) \<longrightarrow>
      (\<exists>r. fst (api_route env io st (Some body)) = Routed r))"
  by (auto simp: api_route_def Let_def split: option.splits)

theorem api_route_rejects_empty_accepts_text:
  "api_route env0 io0 None (Some (bodyOf [])) =
     (InvalidRequest, Some (initializeRouter env0 None)) \<and>
   (\<exists>r. fst (api_route env0 io0 None (Some (bodyOf ''Fix a bug''))) = Routed r)"
proof -
  have a: "rb_message (bodyOf []) = None \<or> rb_message (bodyOf []) = Some []"
    by (simp add: bodyOf_def)
  have b: "\<exists>m. rb_message (bodyOf ''Fix a bug'') = Some m \<and> m \<noteq> []"
    by (simp add: bodyOf_def)
  from api_route_rejects_exactly_empty_message[of "bodyOf []" env0 io0 None] a
    api_route_rejects_exactly_empty_message[of "bodyOf ''Fix a bug''" env0 io0 None] b
  show ?thesis by blast
qed




section \<open>The override to the planning agent\<close>

text \<open>
  The text \<open>overrideText\<close> is a list of words joined by single spaces. The lemmas below
  reduce the substring tests and the tokens of such a text to its words, and the score of
  an agent to two filters of its keywords, so that the scores can be evaluated word by word.
\<close>

subsection \<open>Substrings of a text of words\<close>

lemma startsWith_before_sep:
  "sep \<notin> set k \<Longrightarrow> startsWith (x @ sep # v) k = startsWith x k"
proof (induction x k rule: startsWith.induct)
  case (1 s)
  then show ?case by simp
next
  case (2 k ks)
  then show ?case by auto
next
  case (3 c cs k ks)
  then show ?case by simp
qed

lemma str_includes_append_sep:
  assumes "sep \<notin> set k" and "k \<noteq> []"
  shows "str_includes (u @ sep # v) k = (str_includes u k \<or> str_includes v k)"
proof (induction u)
  case Nil
  obtain k1 ks where k: "k = k1 # ks" using assms(2) by (cases k) auto
  with assms(1) have "sep \<noteq> k1" by auto
  then show ?case using assms(2) by (simp add: k)
next
  case (Cons c u)
  have "startsWith (c # u @ sep # v) k = startsWith (c # u) k"
    using startsWith_before_sep[OF assms(1), of "c # u" v] by simp
  with Cons show ?case by auto
qed

lemma str_includes_join:
  assumes "CHR '' '' \<notin> set k" and "k \<noteq> []"
  shows "str_includes (join '' '' ws) k = list_ex (\<lambda>w. str_includes w k) ws"
proof (induction ws rule: induct_list012)
  case 1
  then show ?case using assms(2) by simp
next
  case (2 x)
  then show ?case by simp
next
  case (3 x y zs)
  then show ?case
    using str_includes_append_sep[OF assms, of x "join '' '' (y # zs)"] by simp
qed

lemma startsWith_prefix: "startsWith s (p @ x) \<Longrightarrow> startsWith s p"
  by (induction s p rule: startsWith.induct) auto

lemma str_includes_prefix: "str_includes t (p @ x) \<Longrightarrow> p \<noteq> [] \<Longrightarrow> str_includes t p"
  by (induction t) (auto dest: startsWith_prefix)

text \<open>
  A keyword is found in a text of words when it has no space and one of the words includes
  it; a keyword with a space is not found when no word includes its first word.
\<close>

lemma firstWord_no_space: "CHR '' '' \<notin> set (firstWord k)"
  unfolding firstWord_def by (auto dest: set_takeWhileD)

lemma str_includes_words:
  assumes "checkable ws k"
  shows "str_includes (join '' '' ws) k = (if firstWord k = k then wordsInclude ws k else False)"
proof (cases "firstWord k = k")
  case True
  then have "CHR '' '' \<notin> set k" using firstWord_no_space[of k] by simp
  moreover have "k \<noteq> []" using assms True by (auto simp: checkable_def split: if_splits)
  ultimately show ?thesis using True by (simp add: str_includes_join wordsInclude_def)
next
  case False
  with assms have ne: "firstWord k \<noteq> []" and no: "\<not> wordsInclude ws (firstWord k)"
    by (auto simp: checkable_def split: if_splits)
  have k: "k = firstWord k @ dropWhile (\<lambda>c. c \<noteq> CHR '' '') k"
    by (simp add: firstWord_def)
  have "\<not> str_includes (join '' '' ws) k"
  proof
    assume "str_includes (join '' '' ws) k"
    then have "str_includes (join '' '' ws) (firstWord k @ dropWhile (\<lambda>c. c \<noteq> CHR '' '') k)"
      using k by simp
    then have "str_includes (join '' '' ws) (firstWord k)"
      using ne by (rule str_includes_prefix)
    then show False
      using no firstWord_no_space[of k] ne by (simp add: str_includes_join wordsInclude_def)
  qed
  with False show ?thesis by simp
qed

lemma filter_str_includes_words:
  assumes "list_all (checkable ws) ks"
  shows "filter (str_includes (join '' '' ws)) ks =
         filter (\<lambda>k. if firstWord k = k then wordsInclude ws k else False) ks"
  using assms by (intro filter_cong) (auto simp: list_all_iff str_includes_words)

subsection \<open>Tokens of a text of words\<close>

lemma splitRuns_none: "(\<forall>c \<in> set w. \<not> P c) \<Longrightarrow> splitRuns P w = [w]"
  by (induction w) auto

lemma splitRuns_word:
  "(\<forall>c \<in> set w. \<not> P c) \<Longrightarrow> P s \<Longrightarrow>
   splitRuns P (w @ s # r) = w # splitRuns P (dropWhile P r)"
  by (induction w) auto

lemma splitRuns_join:
  assumes "list_all (\<lambda>w. w \<noteq> [] \<and> list_all (\<lambda>c. \<not> isSpace c) w) ws" and "ws \<noteq> []"
  shows "splitRuns isSpace (join '' '' ws) = ws"
  using assms
proof (induction ws rule: induct_list012)
  case 1
  then show ?case by simp
next
  case (2 x)
  then show ?case by (simp add: splitRuns_none list_all_iff)
next
  case (3 x y zs)
  from "3.prems" have x: "\<forall>c \<in> set x. \<not> isSpace c" and y: "y \<noteq> []" "\<not> isSpace (hd y)"
    by (auto simp: list_all_iff)
  have sp: "isSpace (CHR '' '')" by (simp add: isSpace_def)
  obtain y1 yr where yy: "y = y1 # yr" using y(1) by (cases y) auto
  have "dropWhile isSpace (join '' '' (y # zs)) = join '' '' (y # zs)"
    using y(2) by (cases zs) (simp_all add: yy)
  moreover have "splitRuns isSpace (join '' '' (y # zs)) = y # zs"
    using "3.IH"(2) "3.prems" by simp
  ultimately show ?case
    using splitRuns_word[OF x sp, of "join '' '' (y # zs)"] by simp
qed

lemma tokenize_join:
  assumes "list_all (\<lambda>w. w \<noteq> [] \<and> list_all (\<lambda>c. \<not> isSpace c \<and> isWordChar c) w) ws"
    and "ws \<noteq> []"
  shows "tokenize (join '' '' ws) = filter (\<lambda>w. length w > 2) ws"
proof -
  from assms(1) have a: "list_all (\<lambda>w. w \<noteq> [] \<and> list_all (\<lambda>c. \<not> isSpace c) w) ws"
    by (auto simp: list_all_iff)
  have "map (filter isWordChar) ws = ws"
    using assms(1) by (intro map_idI filter_True) (auto simp: list_all_iff)
  then show ?thesis
    by (simp add: tokenize_def splitRuns_join[OF a assms(2)])
qed

lemma set_join: "set (join sep ws) \<subseteq> set sep \<union> \<Union> (set ` set ws)"
  by (induction sep ws rule: join.induct) auto

lemma toLowerChar_id:
  "c \<notin> set ''ABCDEFGHIJKLMNOPQRSTUVWXYZ'' \<Longrightarrow> toLowerChar c = c"
proof -
  assume "c \<notin> set ''ABCDEFGHIJKLMNOPQRSTUVWXYZ''"
  then have "map_of (zip ''ABCDEFGHIJKLMNOPQRSTUVWXYZ'' ''abcdefghijklmnopqrstuvwxyz'') c = None"
    by (auto simp: map_of_eq_None_iff dest: set_zip_leftD)
  then show ?thesis by (simp add: toLowerChar_def)
qed

lemma toLowerCase_join:
  assumes "list_all (list_all (\<lambda>c. c \<notin> set ''ABCDEFGHIJKLMNOPQRSTUVWXYZ'')) ws"
  shows "toLowerCase (join '' '' ws) = join '' '' ws"
proof -
  have "\<forall>c \<in> set (join '' '' ws). c \<notin> set ''ABCDEFGHIJKLMNOPQRSTUVWXYZ''"
  proof
    fix c assume "c \<in> set (join '' '' ws)"
    with set_join[of "'' ''" ws] have "c = CHR '' '' \<or> (\<exists>w \<in> set ws. c \<in> set w)" by auto
    with assms show "c \<notin> set ''ABCDEFGHIJKLMNOPQRSTUVWXYZ''"
      by (auto simp: list_all_iff)
  qed
  then show ?thesis
    unfolding toLowerCase_def by (intro map_idI toLowerChar_id) auto
qed

subsection \<open>The score of an agent with one keyword group\<close>

lemma fold_scoreKeyword:
  "fold (scoreKeyword A T ag d) ks (ms, ds, tot) =
     (ms @ map (\<lambda>k. \<lparr>km_keyword = k, km_agent = ag, km_confidence = DEFAULT_CONFIDENCE,
                      km_domain = d\<rparr>) (filter (\<lambda>k. k \<in> set A) ks),
      ds + (DEFAULT_CONFIDENCE * of_nat (length (filter (\<lambda>k. k \<in> set A) ks)) +
            KEYWORD_WEIGHT * COMPOUND_KEYWORD_BOOST * of_nat (length (filter (str_includes T) ks))),
      tot + (DEFAULT_CONFIDENCE * of_nat (length (filter (\<lambda>k. k \<in> set A) ks)) +
             KEYWORD_WEIGHT * COMPOUND_KEYWORD_BOOST * of_nat (length (filter (str_includes T) ks))))"
  by (induction ks arbitrary: ms ds tot) (simp_all add: scoreKeyword_def Let_def algebra_simps)

lemma scoreAgent_single:
  "scoreAgent A T ag [(d, ks)] =
     \<lparr>as_agent = ag,
      as_score = min 100 (85 / 100 * of_nat (length (filter (\<lambda>k. k \<in> set A) ks)) +
                          15 / 100 * of_nat (length (filter (str_includes T) ks))),
      as_matches = map (\<lambda>k. \<lparr>km_keyword = k, km_agent = ag, km_confidence = 85 / 100,
                               km_domain = d\<rparr>) (filter (\<lambda>k. k \<in> set A) ks),
      as_primaryDomain = (if d = [] then ''unknown'' else d)\<rparr>"
  by (simp add: scoreAgent_def scoreDomain_def fold_scoreKeyword primaryDomainOf_def
        toSortedDesc_def Map_set_def DEFAULT_CONFIDENCE_def KEYWORD_WEIGHT_def
        COMPOUND_KEYWORD_BOOST_def)

lemma fold_Map_set_values:
  assumes "distinct (map fst kvs)" and "set (map fst m) \<inter> set (map fst kvs) = {}"
  shows "Map_values (fold (\<lambda>(agent, domains) m. Map_set agent (f agent domains) m) kvs m) =
         Map_values m @ map (\<lambda>(agent, domains). f agent domains) kvs"
  using assms
proof (induction kvs arbitrary: m)
  case Nil
  then show ?case by simp
next
  case (Cons p kvs)
  obtain a d where p: "p = (a, d)" by (cases p)
  from Cons.prems have na: "a \<notin> fst ` set m" by (auto simp: p)
  then have upd: "Map_set a (f a d) m = m @ [(a, f a d)]"
    unfolding Map_set_def by (induction m) auto
  have "Map_values (fold (\<lambda>(agent, domains) m. Map_set agent (f agent domains) m) kvs
          (m @ [(a, f a d)])) =
        Map_values (m @ [(a, f a d)]) @ map (\<lambda>(agent, domains). f agent domains) kvs"
    using Cons.prems by (intro Cons.IH) (auto simp: p)
  then show ?case by (simp add: p upd Map_values_def)
qed

lemma scoreMessage_words:
  assumes "toLowerCase t = t" and "tokenize t = ws" and "extractCompoundKeywords t = []"
  shows "scoreMessage t =
         toSortedDesc as_score (map (\<lambda>(agent, domains). scoreAgent ws t agent domains) KEYWORD_SETS)"
proof -
  have d: "distinct (map fst KEYWORD_SETS)" by (simp add: KEYWORD_SETS_def)
  show ?thesis
    unfolding scoreMessage_def Let_def assms
    using fold_Map_set_values[OF d, of "[]" "scoreAgent ws t"]
    by (simp add: Map_values_def)
qed

subsection \<open>A lower bound of the complexity score\<close>

lemma addFactor_mono: "fst st \<le> fst (addFactor b p f st)"
  by (cases st) (simp add: addFactor_def)

lemma assess_score_lower:
  "2 * length (filter (str_includes (toLowerCase t)) complex_keywords)
     \<le> ca_score (assessComplexity t a)"
proof -
  define n where "n = 2 * length (filter (str_includes (toLowerCase t)) complex_keywords)"
  have step: "n \<le> fst st \<Longrightarrow> n \<le> fst (addFactor b p f st)" for st b p f
    using addFactor_mono[of st b p f] by simp
  have add: "n \<le> fst st \<Longrightarrow> n \<le> fst (fst st + m, snd st)" for st :: "nat \<times> string list" and m
    by simp
  have "n \<le> ca_score (assessComplexity t a)"
    unfolding assessComplexity_def Let_def
    apply (simp only: ComplexityAssessment.select_convs)
    apply (rule step)+
    apply (rule add)
    apply (rule step)
    apply (simp add: n_def)
    done
  then show ?thesis by (simp add: n_def)
qed

lemma assess_level_complex:
  assumes "3 \<le> length (filter (str_includes (toLowerCase t)) complex_keywords)"
  shows "ca_level (assessComplexity t None) = Complex"
proof -
  have "6 \<le> ca_score (assessComplexity t None)"
    using assess_score_lower[of t None] assms by simp
  then show ?thesis
    by (simp add: assessComplexity_def Let_def)
qed

subsection \<open>Evaluation on the words of the text\<close>

text \<open>Equations that decide each test by its first difference.\<close>

lemma startsWith_if:
  "startsWith s [] = True"
  "startsWith [] (k # ks) = False"
  "startsWith (c # cs) (k # ks) = (if c = k then startsWith cs ks else False)"
  by simp_all

lemma str_includes_if:
  "str_includes [] k = (k = [])"
  "str_includes (c # cs) k = (if startsWith (c # cs) k then True else str_includes cs k)"
  by simp_all

lemma member_if:
  "(x \<in> set []) = False"
  "(x \<in> set (y # ys)) = (if x = y then True else x \<in> set ys)"
  by auto

lemma list_eq_if:
  "((x # xs) = (y # ys)) = (if x = y then xs = ys else False)"
  "([] = y # ys) = False"
  "(x # xs = []) = False"
  "(([]::'a list) = []) = True"
  by auto

lemma list_all_if:
  "list_all P [] = True"
  "list_all P (x # xs) = (if P x then list_all P xs else False)"
  by simp_all

lemma list_ex_if:
  "list_ex P [] = False"
  "list_ex P (x # xs) = (if P x then True else list_ex P xs)"
  by simp_all

lemma length_gt2:
  "(length ([]::'a list) > 2) = False"
  "(length [a] > 2) = False"
  "(length [a, b] > 2) = False"
  "(length (a # b # c # xs) > 2) = True"
  by simp_all

lemmas str_eval =
  startsWith_if str_includes_if member_if list_eq_if list_all_if list_ex_if length_gt2
  char.inject simp_thms if_True if_False filter.simps list.map append.simps
  takeWhile.simps firstWord_def wordsInclude_def checkable_def

lemma overrideWords_ok:
  "list_all (\<lambda>w. w \<noteq> [] \<and> list_all (\<lambda>c. \<not> isSpace c \<and> isWordChar c) w) overrideWords"
  by (simp only: overrideWords_def isSpace_def isWordChar_def str_eval cong: if_weak_cong)

lemma overrideWords_lower:
  "list_all (list_all (\<lambda>c. c \<notin> set ''ABCDEFGHIJKLMNOPQRSTUVWXYZ'')) overrideWords"
  by (simp only: overrideWords_def str_eval cong: if_weak_cong)

lemma overrideWords_long: "filter (\<lambda>w. length w > 2) overrideWords = overrideWords"
  by (simp only: overrideWords_def str_eval cong: if_weak_cong)

lemma overrideText_lower: "toLowerCase overrideText = overrideText"
  unfolding overrideText_def by (rule toLowerCase_join) (rule overrideWords_lower)

lemma overrideText_tokens: "tokenize overrideText = overrideWords"
proof -
  have "overrideWords \<noteq> []" by (simp add: overrideWords_def)
  from tokenize_join[OF overrideWords_ok this] show ?thesis
    by (simp add: overrideText_def overrideWords_long)
qed

lemma compounds_checkable: "list_all (checkable overrideWords) compoundPatterns"
  by (simp only: overrideWords_def compoundPatterns_def str_eval cong: if_weak_cong)

lemma overrideText_compounds: "extractCompoundKeywords overrideText = []"
proof -
  have "filter (\<lambda>k. if firstWord k = k then wordsInclude overrideWords k else False)
          compoundPatterns = []"
    by (simp only: overrideWords_def compoundPatterns_def str_eval cong: if_weak_cong)
  with filter_str_includes_words[OF compounds_checkable] show ?thesis
    by (simp add: extractCompoundKeywords_def overrideText_def)
qed

lemma override_includes:
  "list_all (checkable overrideWords) ks \<Longrightarrow>
   filter (str_includes overrideText) ks =
   filter (\<lambda>k. if firstWord k = k then wordsInclude overrideWords k else False) ks"
  unfolding overrideText_def by (rule filter_str_includes_words)

lemma scoreAgent_override:
  assumes "list_all (checkable overrideWords) ks"
    and "filter (\<lambda>k. if firstWord k = k then wordsInclude overrideWords k else False) ks = inc"
    and "filter (\<lambda>k. k \<in> set overrideWords) ks = mem"
  shows "scoreAgent overrideWords overrideText ag [(d, ks)] =
     \<lparr>as_agent = ag,
      as_score = min 100 (85 / 100 * of_nat (length mem) + 15 / 100 * of_nat (length inc)),
      as_matches = map (\<lambda>k. \<lparr>km_keyword = k, km_agent = ag, km_confidence = 85 / 100,
                               km_domain = d\<rparr>) mem,
      as_primaryDomain = (if d = [] then ''unknown'' else d)\<rparr>"
  unfolding scoreAgent_single override_includes[OF assms(1)] assms(2,3) by (rule refl)

lemma KEYWORD_SETS_keywordsOf:
  "KEYWORD_SETS =
     [(''codegen'', [(''implementation'', keywordsOf ''codegen'')]),
      (''planning'', [(''strategy'', keywordsOf ''planning'')]),
      (''security'', [(''security'', keywordsOf ''security'')]),
      (''infrastructure'', [(''operations'', keywordsOf ''infrastructure'')])]"
  by (simp add: keywordsOf_def KEYWORD_SETS_def)

lemma map_of_if:
  "map_of [] x = None"
  "map_of ((k, v) # ps) x = (if x = k then Some v else map_of ps x)"
  by simp_all

lemmas kw_eval = keywordsOf_def KEYWORD_SETS_def map_of_if fst_conv snd_conv option.case
  list.case prod.case overrideWords_def str_eval

lemma override_codegen:
  "scoreAgent overrideWords overrideText ''codegen'' [(''implementation'', keywordsOf ''codegen'')] =
     \<lparr>as_agent = ''codegen'', as_score = 23,
      as_matches =
        map (\<lambda>k. \<lparr>km_keyword = k, km_agent = ''codegen'', km_confidence = 85 / 100,
                    km_domain = ''implementation''\<rparr>)
          [''build'', ''code'', ''create'', ''write'', ''method'', ''class'', ''route'',
           ''debug'', ''fix'', ''error'', ''bug'', ''optimize'', ''refactor'', ''performance'',
           ''test'', ''deploy'', ''setup'', ''python'', ''react'', ''vue'', ''rust'', ''java'',
           ''query''],
      as_primaryDomain = ''implementation''\<rparr>"
proof -
  have c: "list_all (checkable overrideWords) (keywordsOf ''codegen'')"
    by (simp only: kw_eval cong: if_weak_cong)
  have i: "filter (\<lambda>k. if firstWord k = k then wordsInclude overrideWords k else False)
             (keywordsOf ''codegen'') =
           [''build'', ''code'', ''create'', ''write'', ''method'', ''class'', ''route'',
            ''debug'', ''fix'', ''error'', ''bug'', ''optimize'', ''refactor'', ''performance'',
            ''test'', ''deploy'', ''setup'', ''python'', ''react'', ''vue'', ''rust'', ''java'',
            ''query'']"
    by (simp only: kw_eval cong: if_weak_cong)
  have m: "filter (\<lambda>k. k \<in> set overrideWords) (keywordsOf ''codegen'') =
           [''build'', ''code'', ''create'', ''write'', ''method'', ''class'', ''route'',
            ''debug'', ''fix'', ''error'', ''bug'', ''optimize'', ''refactor'', ''performance'',
            ''test'', ''deploy'', ''setup'', ''python'', ''react'', ''vue'', ''rust'', ''java'',
            ''query'']"
    by (simp only: kw_eval cong: if_weak_cong)
  show ?thesis
    unfolding scoreAgent_override[OF c i m] by simp
qed

lemma override_planning:
  "scoreAgent overrideWords overrideText ''planning'' [(''strategy'', keywordsOf ''planning'')] =
     \<lparr>as_agent = ''planning'', as_score = 21,
      as_matches =
        map (\<lambda>k. \<lparr>km_keyword = k, km_agent = ''planning'', km_confidence = 85 / 100,
                    km_domain = ''strategy''\<rparr>)
          [''plan'', ''strategy'', ''roadmap'', ''timeline'', ''project'', ''workflow'',
           ''process'', ''proposal'', ''scope'', ''milestone'', ''deadline'', ''task'',
           ''team'', ''budget'', ''cost'', ''estimate'', ''phase'', ''sprint'', ''epic'',
           ''risk'', ''review''],
      as_primaryDomain = ''strategy''\<rparr>"
proof -
  have c: "list_all (checkable overrideWords) (keywordsOf ''planning'')"
    by (simp only: kw_eval cong: if_weak_cong)
  have i: "filter (\<lambda>k. if firstWord k = k then wordsInclude overrideWords k else False)
             (keywordsOf ''planning'') =
           [''plan'', ''strategy'', ''roadmap'', ''timeline'', ''project'', ''workflow'',
            ''process'', ''proposal'', ''scope'', ''milestone'', ''deadline'', ''task'',
            ''team'', ''budget'', ''cost'', ''estimate'', ''phase'', ''sprint'', ''epic'',
            ''risk'', ''review'']"
    by (simp only: kw_eval cong: if_weak_cong)
  have m: "filter (\<lambda>k. k \<in> set overrideWords) (keywordsOf ''planning'') =
           [''plan'', ''strategy'', ''roadmap'', ''timeline'', ''project'', ''workflow'',
            ''process'', ''proposal'', ''scope'', ''milestone'', ''deadline'', ''task'',
            ''team'', ''budget'', ''cost'', ''estimate'', ''phase'', ''sprint'', ''epic'',
            ''risk'', ''review'']"
    by (simp only: kw_eval cong: if_weak_cong)
  show ?thesis
    unfolding scoreAgent_override[OF c i m] by simp
qed

lemma override_security:
  "scoreAgent overrideWords overrideText ''security'' [(''security'', keywordsOf ''security'')] =
     \<lparr>as_agent = ''security'', as_score = 1,
      as_matches =
        map (\<lambda>k. \<lparr>km_keyword = k, km_agent = ''security'', km_confidence = 85 / 100,
                    km_domain = ''security''\<rparr>)
          [''risk''],
      as_primaryDomain = ''security''\<rparr>"
proof -
  have c: "list_all (checkable overrideWords) (keywordsOf ''security'')"
    by (simp only: kw_eval cong: if_weak_cong)
  have i: "filter (\<lambda>k. if firstWord k = k then wordsInclude overrideWords k else False)
             (keywordsOf ''security'') =
           [''risk'']"
    by (simp only: kw_eval cong: if_weak_cong)
  have m: "filter (\<lambda>k. k \<in> set overrideWords) (keywordsOf ''security'') =
           [''risk'']"
    by (simp only: kw_eval cong: if_weak_cong)
  show ?thesis
    unfolding scoreAgent_override[OF c i m] by simp
qed

lemma override_infrastructure:
  "scoreAgent overrideWords overrideText ''infrastructure'' [(''operations'', keywordsOf ''infrastructure'')] =
     \<lparr>as_agent = ''infrastructure'', as_score = 1,
      as_matches =
        map (\<lambda>k. \<lparr>km_keyword = k, km_agent = ''infrastructure'', km_confidence = 85 / 100,
                    km_domain = ''operations''\<rparr>)
          [''deploy''],
      as_primaryDomain = ''operations''\<rparr>"
proof -
  have c: "list_all (checkable overrideWords) (keywordsOf ''infrastructure'')"
    by (simp only: kw_eval cong: if_weak_cong)
  have i: "filter (\<lambda>k. if firstWord k = k then wordsInclude overrideWords k else False)
             (keywordsOf ''infrastructure'') =
           [''deploy'']"
    by (simp only: kw_eval cong: if_weak_cong)
  have m: "filter (\<lambda>k. k \<in> set overrideWords) (keywordsOf ''infrastructure'') =
           [''deploy'']"
    by (simp only: kw_eval cong: if_weak_cong)
  show ?thesis
    unfolding scoreAgent_override[OF c i m] by simp
qed

lemma override_scoreMessage:
  "scoreMessage overrideText =
     [scoreAgent overrideWords overrideText ''codegen'' [(''implementation'', keywordsOf ''codegen'')],
      scoreAgent overrideWords overrideText ''planning'' [(''strategy'', keywordsOf ''planning'')],
      scoreAgent overrideWords overrideText ''security'' [(''security'', keywordsOf ''security'')],
      scoreAgent overrideWords overrideText ''infrastructure'' [(''operations'', keywordsOf ''infrastructure'')]]"
proof -
  have s: "as_score (scoreAgent overrideWords overrideText ''codegen''
                      [(''implementation'', keywordsOf ''codegen'')]) = 23"
    "as_score (scoreAgent overrideWords overrideText ''planning''
                      [(''strategy'', keywordsOf ''planning'')]) = 21"
    "as_score (scoreAgent overrideWords overrideText ''security''
                      [(''security'', keywordsOf ''security'')]) = 1"
    "as_score (scoreAgent overrideWords overrideText ''infrastructure''
                      [(''operations'', keywordsOf ''infrastructure'')]) = 1"
    by (simp_all add: override_codegen override_planning override_security
          override_infrastructure)
  show ?thesis
    unfolding scoreMessage_words[OF overrideText_lower overrideText_tokens
        overrideText_compounds] KEYWORD_SETS_keywordsOf
    by (simp add: toSortedDesc_def s)
qed

lemma override_complex: "ca_level (assessComplexity overrideText None) = Complex"
proof -
  have c: "list_all (checkable overrideWords) complex_keywords"
    by (simp only: overrideWords_def complex_keywords_def str_eval cong: if_weak_cong)
  have "filter (str_includes overrideText) complex_keywords =
          [''optimize'', ''refactor'', ''performance'']"
    unfolding override_includes[OF c]
    by (simp only: overrideWords_def complex_keywords_def str_eval cong: if_weak_cong)
  then show ?thesis
    by (intro assess_level_complex) (simp add: overrideText_lower)
qed

text \<open>
  Claim C4: the matched keywords of the decision are at most 5 and all come from the
  AgentScore of the agent that was finally selected, also after the override to the planning
  agent. The code takes them from the top-scored agent, before the override, and the reason
  string attributes them to the selected agent. For \<open>overrideText\<close> (codegen scores 23,
  planning 21, the task is complex) the decision names planning, and its matched keywords
  are five keywords of codegen, none of them among the keywords that matched planning.
\<close>

theorem override_keeps_top_agent_keywords:
  "rd_agent (route staticEngine overrideText None None clock0) = ''planning'' \<and>
   rd_matchedKeywords (route staticEngine overrideText None None clock0) =
     [''build'', ''code'', ''create'', ''write'', ''method''] \<and>
   map (\<lambda>a. map km_keyword (as_matches a))
     (filter (\<lambda>a. as_agent a = ''planning'') (scoreMessage overrideText)) =
     [[''plan'', ''strategy'', ''roadmap'', ''timeline'', ''project'', ''workflow'', ''process'',
       ''proposal'', ''scope'', ''milestone'', ''deadline'', ''task'', ''team'', ''budget'',
       ''cost'', ''estimate'', ''phase'', ''sprint'', ''epic'', ''risk'', ''review'']]"
proof -
  have a: "rd_agent (route staticEngine overrideText None None clock0) = ''planning''"
    by (simp add: route_def Let_def override_scoreMessage override_complex
          override_codegen override_planning override_security override_infrastructure)
  have k: "rd_matchedKeywords (route staticEngine overrideText None None clock0) =
             [''build'', ''code'', ''create'', ''write'', ''method'']"
    by (simp add: route_def Let_def override_scoreMessage override_codegen)
  have p: "map (\<lambda>a. map km_keyword (as_matches a))
     (filter (\<lambda>a. as_agent a = ''planning'') (scoreMessage overrideText)) =
     [[''plan'', ''strategy'', ''roadmap'', ''timeline'', ''project'', ''workflow'', ''process'',
       ''proposal'', ''scope'', ''milestone'', ''deadline'', ''task'', ''team'', ''budget'',
       ''cost'', ''estimate'', ''phase'', ''sprint'', ''epic'', ''risk'', ''review'']]"
    by (simp add: override_scoreMessage override_codegen override_planning override_security
          override_infrastructure)
  from a k p show ?thesis by blast
qed

end
